theory Spec2Isabelle
  imports Main "HOL-Library.Word" "HOL-Library.Monad_Syntax"
begin

unbundle bit_operations_syntax

section \<open>The machine: bytes, page-table entries, kernel parameters\<close>

text \<open>
  The engine of \<^verbatim>\<open>internal/override_symbol.c\<close> is written for x86-64 (it emits
  \<^verbatim>\<open>MOVQ imm64, %rax; JMP *%rax\<close> and includes \<^verbatim>\<open>asm/unistd_64.h\<close>): an
  \<^verbatim>\<open>unsigned long\<close> and a pointer are 64-bit words whose arithmetic wraps, a
  \<^verbatim>\<open>char\<close> is a byte, and an \<^verbatim>\<open>unsigned int\<close> is a 32-bit word. Multi-byte
  values lie in memory least significant byte first.
\<close>

type_synonym addr = "64 word"
type_synonym byte = "8 word"
type_synonym memory = "addr \<Rightarrow> byte"

text \<open>
  The page table as \<^verbatim>\<open>lookup_address()\<close> of the kernel presents it: one entry
  (\<^verbatim>\<open>pte_t.pte\<close>) for each 4 KiB frame, here indexed by the frame number of the address
  looked up. Large pages and unmapped addresses (a null \<^verbatim>\<open>pte_t *\<close>, which the source
  dereferences unchecked) are outside the model.
\<close>

type_synonym pagetable = "addr \<Rightarrow> 64 word"

datatype errno = ENOMEM | EFAULT | EINVAL

text \<open>
  The kernel's x86-64 definitions used by the source: \<^verbatim>\<open>PAGE_SIZE\<close>, \<^verbatim>\<open>PAGE_MASK\<close>,
  \<^verbatim>\<open>PAGE_ALIGN\<close> (round up to a page boundary) and \<^verbatim>\<open>_PAGE_RW\<close> (bit 1 of an entry).
\<close>

definition PAGE_SHIFT :: nat where
  "PAGE_SHIFT = 12"

definition PAGE_SIZE :: addr where
  "PAGE_SIZE = 4096"

definition PAGE_MASK :: addr where
  "PAGE_MASK = NOT (PAGE_SIZE - 1)"

definition PAGE_ALIGN :: "addr \<Rightarrow> addr" where
  "PAGE_ALIGN a = (a + (PAGE_SIZE - 1)) AND PAGE_MASK"

definition PAGE_RW :: "64 word" where
  "PAGE_RW = 2"

definition ULONG_MAX :: addr where
  "ULONG_MAX = - 1"

text \<open>The source's own macro: \<^verbatim>\<open>(PAGE_ALIGN(addr) - PAGE_SIZE)\<close>.\<close>

definition PAGE_ALIGN_BOTTOM :: "addr \<Rightarrow> addr" where
  "PAGE_ALIGN_BOTTOM a = PAGE_ALIGN a - PAGE_SIZE"

text \<open>The frame whose entry \<^verbatim>\<open>lookup_address(a, &level)\<close> returns.\<close>

definition frame_of :: "addr \<Rightarrow> addr" where
  "frame_of a = drop_bit PAGE_SHIFT a"

definition writable :: "pagetable \<Rightarrow> addr \<Rightarrow> bool" where
  "writable pt a = (pt (frame_of a) AND PAGE_RW \<noteq> 0)"

section \<open>Memory Protection Controller\<close>

text \<open>
  \<^verbatim>\<open>set_mem_rw\<close>: \<^verbatim>\<open>for(; addr <= vaddr; addr += PAGE_SIZE) pte->pte |= _PAGE_RW\<close>,
  starting at \<^verbatim>\<open>PAGE_ALIGN_BOTTOM(vaddr)\<close>. The addition wraps, so the loop is a partial
  function: \<open>None\<close> is a loop that never exits. The parameter \<^verbatim>\<open>len\<close> only occurs in
  the debug message of the source. The final \<^verbatim>\<open>_flush_tlb_all()\<close> has no effect on the
  entries.
\<close>

partial_function (option) set_mem_rw_loop :: "pagetable \<Rightarrow> addr \<Rightarrow> addr \<Rightarrow> pagetable option" where
  "set_mem_rw_loop pt a vaddr =
     (if a \<le> vaddr
      then set_mem_rw_loop (pt(frame_of a := pt (frame_of a) OR PAGE_RW)) (a + PAGE_SIZE) vaddr
      else Some pt)"

definition set_mem_rw :: "pagetable \<Rightarrow> addr \<Rightarrow> addr \<Rightarrow> pagetable option" where
  "set_mem_rw pt vaddr len = set_mem_rw_loop pt (PAGE_ALIGN_BOTTOM vaddr) vaddr"

text \<open>\<^verbatim>\<open>set_mem_ro\<close>: the same loop with \<^verbatim>\<open>pte->pte &= ~_PAGE_RW\<close>.\<close>

partial_function (option) set_mem_ro_loop :: "pagetable \<Rightarrow> addr \<Rightarrow> addr \<Rightarrow> pagetable option" where
  "set_mem_ro_loop pt a vaddr =
     (if a \<le> vaddr
      then set_mem_ro_loop (pt(frame_of a := pt (frame_of a) AND NOT PAGE_RW)) (a + PAGE_SIZE) vaddr
      else Some pt)"

definition set_mem_ro :: "pagetable \<Rightarrow> addr \<Rightarrow> addr \<Rightarrow> pagetable option" where
  "set_mem_ro pt vaddr len = set_mem_ro_loop pt (PAGE_ALIGN_BOTTOM vaddr) vaddr"

section \<open>Kernel memory and the state of the engine\<close>

text \<open>\<^verbatim>\<open>memcpy\<close> into and out of kernel memory, byte by byte from the lowest address.\<close>

primrec write_bytes :: "memory \<Rightarrow> addr \<Rightarrow> byte list \<Rightarrow> memory" where
  "write_bytes m a [] = m"
| "write_bytes m a (b # bs) = write_bytes (m(a := b)) (a + 1) bs"

primrec read_bytes :: "memory \<Rightarrow> addr \<Rightarrow> nat \<Rightarrow> byte list" where
  "read_bytes m a 0 = []"
| "read_bytes m a (Suc n) = m a # read_bytes m (a + 1) n"

text \<open>An \<^verbatim>\<open>unsigned long\<close> as its eight bytes, least significant first, and back.\<close>

definition le_bytes :: "64 word \<Rightarrow> byte list" where
  "le_bytes v = map (\<lambda>i. ucast (drop_bit (8 * i) v)) [0..<8]"

definition of_le_bytes :: "byte list \<Rightarrow> 64 word" where
  "of_le_bytes bs = foldr (\<lambda>b acc. ucast b OR push_bit 8 acc) bs 0"

definition read64 :: "memory \<Rightarrow> addr \<Rightarrow> 64 word" where
  "read64 m a = of_le_bytes (read_bytes m a 8)"

text \<open>
  What the kernel provides and the source only uses: \<^verbatim>\<open>kallsyms_lookup_name\<close> (0 when the
  name is unknown) and \<^verbatim>\<open>__NR_syscall_max\<close> of \<^verbatim>\<open>asm/asm-offsets.h\<close>, which depends
  on the kernel built against.
\<close>

record kernel_env =
  kallsyms_lookup_name :: "string \<Rightarrow> addr"
  NR_syscall_max :: "32 word"

text \<open>The x86-64 system call numbers of \<^verbatim>\<open>asm/unistd_64.h\<close> that the scan uses.\<close>

definition NR_read :: addr where "NR_read = 0"
definition NR_write :: addr where "NR_write = 1"
definition NR_open :: addr where "NR_open = 2"
definition NR_close :: addr where "NR_close = 3"

text \<open>
  The state the engine works on: the bytes of kernel memory, the page-table entries, the
  two file-scope variables \<^verbatim>\<open>syscall_table_ptr\<close> and \<^verbatim>\<open>overridden_syscall[NR_syscalls]\<close>
  (indexed by the system call number; every access is behind the bounds check), and
  \<open>wlog\<close>, the list of the stores made into kernel memory, in program order. \<open>wlog\<close> is
  an observer added by the model: each \<^verbatim>\<open>memcpy\<close> to a patched site and each assignment to
  a table slot appends its destination and bytes. A store changes the bytes whatever the
  page-table entry of the destination says: the fault a processor raises on a store into a
  read-only page is not in the source, and not in the model.
\<close>

record kstate =
  bytes :: memory
  ptes :: pagetable
  wlog :: "(addr \<times> byte list) list"
  syscall_table_ptr :: addr
  overridden_syscall :: "nat \<Rightarrow> addr"

definition store_bytes :: "kstate \<Rightarrow> addr \<Rightarrow> byte list \<Rightarrow> kstate" where
  "store_bytes st dst bs =
     st\<lparr>bytes := write_bytes (bytes st) dst bs, wlog := wlog st @ [(dst, bs)]\<rparr>"

section \<open>Trampoline Generator\<close>

text \<open>
  Modelled from the spec: \<^verbatim>\<open>OVERRIDE_JUMP_SIZE\<close> is declared in \<^verbatim>\<open>override_symbol.h\<close>,
  which is not among the sources. The spec fixes the template length at 12 bytes, which is
  also the length of the initialiser of \<^verbatim>\<open>jump_tpl\<close> and the number of bytes the
  source's debug message prints.
\<close>

definition OVERRIDE_JUMP_SIZE :: nat where
  "OVERRIDE_JUMP_SIZE = 12"

definition JUMP_ADDR_POS :: nat where
  "JUMP_ADDR_POS = 2"

definition jump_tpl :: "byte list" where
  "jump_tpl = [0x48, 0xb8, 0, 0, 0, 0, 0, 0, 0, 0, 0xff, 0xe0]"

text \<open>
  \<^verbatim>\<open>*(long *)&buf[pos] = v\<close>: eight bytes of the array are replaced. Both uses in the source
  have \<^verbatim>\<open>pos + 8\<close> within the array.
\<close>

definition store_long :: "byte list \<Rightarrow> nat \<Rightarrow> 64 word \<Rightarrow> byte list" where
  "store_long buf pos v = take pos buf @ le_bytes v @ drop (pos + 8) buf"

section \<open>Override Instance\<close>

text \<open>
  \<^verbatim>\<open>struct override_symbol_inst\<close>. The spinlock and its saved interrupt flags are left
  out: the model is sequential. The two \<^verbatim>\<open>char[OVERRIDE_JUMP_SIZE]\<close> arrays are byte lists;
  a \<^verbatim>\<open>memcpy\<close> of \<^verbatim>\<open>OVERRIDE_JUMP_SIZE\<close> bytes into one of them replaces it whole.
\<close>

record override_symbol_inst =
  org_sym_ptr :: addr
  new_sym_ptr :: addr
  org_sym_code :: "byte list"
  trampoline :: "byte list"
  installed :: bool
  has_trampoline :: bool
  mem_protected :: bool
  name :: string

text \<open>
  \<^verbatim>\<open>get_ov_symbol_instance\<close>. The argument \<open>kmalloc\<close> is what the allocator returns:
  \<open>None\<close> for a failed allocation, otherwise the block with whatever it contained.
\<close>

definition get_ov_symbol_instance ::
  "kernel_env \<Rightarrow> override_symbol_inst option \<Rightarrow> string \<Rightarrow> addr \<Rightarrow> errno + override_symbol_inst" where
  "get_ov_symbol_instance env kmalloc symbol_name new_ptr =
     (case kmalloc of
        None \<Rightarrow> Inl ENOMEM
      | Some blk \<Rightarrow>
          let ovs = blk\<lparr>new_sym_ptr := new_ptr, installed := False, has_trampoline := False,
                        mem_protected := True, name := symbol_name,
                        org_sym_ptr := kallsyms_lookup_name env symbol_name\<rparr>
          in if org_sym_ptr ovs = 0 then Inl EFAULT else Inr ovs)"

text \<open>
  \<^verbatim>\<open>enable_mem_protection\<close> and \<^verbatim>\<open>disable_mem_protection\<close>, as the source has them: both
  call \<^verbatim>\<open>set_mem_rw\<close>; they differ in the flag they store.
\<close>

definition enable_mem_protection ::
  "kstate \<Rightarrow> override_symbol_inst \<Rightarrow> (kstate \<times> override_symbol_inst) option" where
  "enable_mem_protection st ovs =
     do {
       pt \<leftarrow> set_mem_rw (ptes st) (org_sym_ptr ovs) (of_nat OVERRIDE_JUMP_SIZE);
       Some (st\<lparr>ptes := pt\<rparr>, ovs\<lparr>mem_protected := True\<rparr>)
     }"

definition disable_mem_protection ::
  "kstate \<Rightarrow> override_symbol_inst \<Rightarrow> (kstate \<times> override_symbol_inst) option" where
  "disable_mem_protection st ovs =
     do {
       pt \<leftarrow> set_mem_rw (ptes st) (org_sym_ptr ovs) (of_nat OVERRIDE_JUMP_SIZE);
       Some (st\<lparr>ptes := pt\<rparr>, ovs\<lparr>mem_protected := False\<rparr>)
     }"

text \<open>
  \<^verbatim>\<open>prepare_trampoline\<close>: copy the template, paste the new address at
  \<^verbatim>\<open>JUMP_ADDR_POS\<close>, back up the code at the symbol.
\<close>

definition prepare_trampoline :: "kstate \<Rightarrow> override_symbol_inst \<Rightarrow> override_symbol_inst" where
  "prepare_trampoline st ovs =
     ovs\<lparr>trampoline := store_long (take OVERRIDE_JUMP_SIZE jump_tpl) JUMP_ADDR_POS (new_sym_ptr ovs),
         org_sym_code := read_bytes (bytes st) (org_sym_ptr ovs) OVERRIDE_JUMP_SIZE,
         has_trampoline := True\<rparr>"

text \<open>
  \<^verbatim>\<open>__enable_symbol_override\<close> and \<^verbatim>\<open>__disable_symbol_override\<close> (named here without the
  leading underscores). Both return 0 on every path, modelled as \<open>Inr ()\<close>.
\<close>

definition enable_symbol_override ::
  "kstate \<Rightarrow> override_symbol_inst \<Rightarrow> ((errno + unit) \<times> kstate \<times> override_symbol_inst) option" where
  "enable_symbol_override st ovs =
     (if installed ovs then Some (Inr (), st, ovs)
      else
        let ovs1 = (if \<not> has_trampoline ovs then prepare_trampoline st ovs else ovs) in
        do {
          (st2, ovs2) \<leftarrow> (if mem_protected ovs1 then disable_mem_protection st ovs1
                          else Some (st, ovs1));
          let st3 = store_bytes st2 (org_sym_ptr ovs2) (take OVERRIDE_JUMP_SIZE (trampoline ovs2));
          Some (Inr (), st3, ovs2\<lparr>installed := True\<rparr>)
        })"

definition disable_symbol_override ::
  "kstate \<Rightarrow> override_symbol_inst \<Rightarrow> ((errno + unit) \<times> kstate \<times> override_symbol_inst) option" where
  "disable_symbol_override st ovs =
     (if \<not> installed ovs then Some (Inr (), st, ovs)
      else
        do {
          (st2, ovs2) \<leftarrow> (if mem_protected ovs then disable_mem_protection st ovs
                          else Some (st, ovs));
          let st3 = store_bytes st2 (org_sym_ptr ovs2) (take OVERRIDE_JUMP_SIZE (org_sym_code ovs2));
          Some (Inr (), st3, ovs2\<lparr>installed := False\<rparr>)
        })"

text \<open>\<^verbatim>\<open>symbol_is_overridden\<close>: \<^verbatim>\<open>likely(sym) && sym->installed\<close>; a null handle is \<open>None\<close>.\<close>

definition symbol_is_overridden :: "override_symbol_inst option \<Rightarrow> bool" where
  "symbol_is_overridden h = (case h of None \<Rightarrow> False | Some s \<Rightarrow> installed s)"

text \<open>
  \<^verbatim>\<open>override_symbol_ng\<close> and \<^verbatim>\<open>restore_symbol_ng\<close>. On the error path and at the end of
  a restore the instance is freed (\<^verbatim>\<open>put_ov_symbol_instance\<close>), so it is not returned.
\<close>

definition override_symbol_ng ::
  "kernel_env \<Rightarrow> override_symbol_inst option \<Rightarrow> kstate \<Rightarrow> string \<Rightarrow> addr
     \<Rightarrow> ((errno + override_symbol_inst) \<times> kstate) option" where
  "override_symbol_ng env kmalloc st nm new_ptr =
     (case get_ov_symbol_instance env kmalloc nm new_ptr of
        Inl e \<Rightarrow> Some (Inl e, st)
      | Inr ovs \<Rightarrow>
          do {
            (out, st1, ovs1) \<leftarrow> enable_symbol_override st ovs;
            (case out of
               Inl e \<Rightarrow> Some (Inl e, st1)
             | Inr u \<Rightarrow>
                 do {
                   (st2, ovs2) \<leftarrow> enable_mem_protection st1 ovs1;
                   Some (Inr ovs2, st2)
                 })
          })"

definition restore_symbol_ng ::
  "kstate \<Rightarrow> override_symbol_inst \<Rightarrow> ((errno + unit) \<times> kstate) option" where
  "restore_symbol_ng st ovs =
     do {
       (out, st1, ovs1) \<leftarrow> disable_symbol_override st ovs;
       (case out of
          Inl e \<Rightarrow> Some (Inl e, st1)
        | Inr u \<Rightarrow>
            do {
              (st2, ovs2) \<leftarrow> enable_mem_protection st1 ovs1;
              Some (Inr (), st2)
            })
     }"

section \<open>Syscall Table Locator\<close>

text \<open>\<^verbatim>\<open>&syscall_table_ptr[n]\<close> and \<^verbatim>\<open>syscall_table_ptr[n]\<close> for a table at \<open>tbl\<close>.\<close>

definition slot_addr :: "addr \<Rightarrow> addr \<Rightarrow> addr" where
  "slot_addr tbl n = tbl + 8 * n"

definition table_matches :: "memory \<Rightarrow> addr \<Rightarrow> addr \<Rightarrow> addr \<Rightarrow> addr \<Rightarrow> addr \<Rightarrow> bool" where
  "table_matches m tbl sys_close_ptr sys_open_ptr sys_read_ptr sys_write_ptr =
     (read64 m (slot_addr tbl NR_close) = sys_close_ptr \<and>
      read64 m (slot_addr tbl NR_open) = sys_open_ptr \<and>
      read64 m (slot_addr tbl NR_read) = sys_read_ptr \<and>
      read64 m (slot_addr tbl NR_write) = sys_write_ptr)"

text \<open>
  The scan \<^verbatim>\<open>for (; i < ULONG_MAX; i += sizeof(void *))\<close>. It returns \<open>Some (Some i)\<close>
  when the four slots match at \<open>i\<close>, \<open>Some None\<close> when the loop condition fails, and is
  \<open>None\<close> when the loop never exits.
\<close>

partial_function (option) scan_sys_call_table ::
  "memory \<Rightarrow> addr \<Rightarrow> addr \<Rightarrow> addr \<Rightarrow> addr \<Rightarrow> addr \<Rightarrow> addr option option" where
  "scan_sys_call_table m sys_close_ptr sys_open_ptr sys_read_ptr sys_write_ptr i =
     (if i < ULONG_MAX
      then (if table_matches m i sys_close_ptr sys_open_ptr sys_read_ptr sys_write_ptr
            then Some (Some i)
            else scan_sys_call_table m sys_close_ptr sys_open_ptr sys_read_ptr sys_write_ptr (i + 8))
      else Some None)"

definition find_sys_call_table :: "kernel_env \<Rightarrow> kstate \<Rightarrow> ((errno + unit) \<times> kstate) option" where
  "find_sys_call_table env st =
     (let st0 = st\<lparr>syscall_table_ptr := kallsyms_lookup_name env ''sys_call_table''\<rparr> in
      if syscall_table_ptr st0 \<noteq> 0 then Some (Inr (), st0)
      else
        let sys_close_ptr = kallsyms_lookup_name env ''sys_close'';
            sys_open_ptr = kallsyms_lookup_name env ''sys_open'';
            sys_read_ptr = kallsyms_lookup_name env ''sys_read'';
            sys_write_ptr = kallsyms_lookup_name env ''sys_write''
        in
          if sys_close_ptr = 0 \<or> sys_open_ptr = 0 \<or> sys_read_ptr = 0 \<or> sys_write_ptr = 0
          then Some (Inl EFAULT, st0)
          else
            let i0 = sys_close_ptr;
                i1 = (if sys_open_ptr < i0 then sys_open_ptr else i0);
                i2 = (if sys_read_ptr < i1 then sys_read_ptr else i1);
                i3 = (if sys_write_ptr < i2 then sys_write_ptr else i2)
            in
              do {
                r \<leftarrow> scan_sys_call_table (bytes st0) sys_close_ptr sys_open_ptr sys_read_ptr
                       sys_write_ptr i3;
                (case r of
                   Some tbl \<Rightarrow> Some (Inr (), st0\<lparr>syscall_table_ptr := tbl\<rparr>)
                 | None \<Rightarrow> Some (Inl EFAULT, st0\<lparr>syscall_table_ptr := 0\<rparr>))
              })"

section \<open>Syscall Override Registry\<close>

text \<open>
  \<^verbatim>\<open>override_syscall\<close>. The out-parameter \<^verbatim>\<open>org_sysc_ptr\<close> is the flag \<open>org_wanted\<close>
  (the caller passed a non-null pointer) and the value stored through it. The calls of
  \<^verbatim>\<open>print_syscall_table\<close> only log.
\<close>

definition override_syscall ::
  "kernel_env \<Rightarrow> kstate \<Rightarrow> 32 word \<Rightarrow> addr \<Rightarrow> bool \<Rightarrow> ((errno + addr option) \<times> kstate) option" where
  "override_syscall env st syscall_num new_sysc_ptr org_wanted =
     do {
       (out, st1) \<leftarrow> (if syscall_table_ptr st = 0 then find_sys_call_table env st
                      else Some (Inr (), st));
       (case out of
          Inl e \<Rightarrow> Some (Inl e, st1)
        | Inr u \<Rightarrow>
            if syscall_num > NR_syscall_max env then Some (Inl EINVAL, st1)
            else
              let n = unat syscall_num;
                  slot = slot_addr (syscall_table_ptr st1) (ucast syscall_num);
                  st2 = (if overridden_syscall st1 n \<noteq> 0 then st1
                         else st1\<lparr>overridden_syscall :=
                                    (overridden_syscall st1)(n := read64 (bytes st1) slot)\<rparr>);
                  org = (if org_wanted then Some (overridden_syscall st2 n) else None)
              in
                do {
                  pt1 \<leftarrow> set_mem_rw (ptes st2) slot 8;
                  let st3 = store_bytes (st2\<lparr>ptes := pt1\<rparr>) slot (le_bytes new_sysc_ptr);
                  pt2 \<leftarrow> set_mem_ro (ptes st3) slot 8;
                  Some (Inr org, st3\<lparr>ptes := pt2\<rparr>)
                })
     }"

text \<open>
  \<^verbatim>\<open>restore_syscall\<close>, as the source has it: \<^verbatim>\<open>set_mem_rw\<close> before and after the store.
  Here too the calls of \<^verbatim>\<open>print_syscall_table\<close> only log.
\<close>

definition restore_syscall ::
  "kernel_env \<Rightarrow> kstate \<Rightarrow> 32 word \<Rightarrow> ((errno + unit) \<times> kstate) option" where
  "restore_syscall env st syscall_num =
     (if syscall_table_ptr st = 0 then Some (Inl EFAULT, st)
      else if syscall_num > NR_syscall_max env then Some (Inl EINVAL, st)
      else if overridden_syscall st (unat syscall_num) = 0 then Some (Inl EINVAL, st)
      else
        let slot = slot_addr (syscall_table_ptr st) (ucast syscall_num) in
        do {
          pt1 \<leftarrow> set_mem_rw (ptes st) slot 8;
          let st1 = store_bytes (st\<lparr>ptes := pt1\<rparr>) slot
                      (le_bytes (overridden_syscall st (unat syscall_num)));
          pt2 \<leftarrow> set_mem_rw (ptes st1) slot 8;
          Some (Inr (), st1\<lparr>ptes := pt2\<rparr>)
        })"

text \<open>
  The first step of \<^verbatim>\<open>override_syscall\<close> on its own: the cached table base, or the
  lookup when nothing is cached.
\<close>

definition table_located :: "kernel_env \<Rightarrow> kstate \<Rightarrow> ((errno + unit) \<times> kstate) option" where
  "table_located env st =
     (if syscall_table_ptr st = 0 then find_sys_call_table env st else Some (Inr (), st))"

section \<open>Concrete kernels for the examples\<close>

text \<open>
  A kernel that exports \<^verbatim>\<open>printk\<close> and \<^verbatim>\<open>sys_call_table\<close>, with 333 system calls; a
  block as the allocator may hand it out, with stale content; a state in which every byte
  of memory is \<^verbatim>\<open>0x90\<close>, every page is present and read-only, and nothing has been located
  or overridden; and the instance that creation yields for \<^verbatim>\<open>printk\<close>.
\<close>

definition env_demo :: kernel_env where
  "env_demo = \<lparr>kallsyms_lookup_name =
                  (\<lambda>_. 0)(''printk'' := 0xffffffff81000010,
                           ''sys_call_table'' := 0xffffffff81800000),
               NR_syscall_max = 332\<rparr>"

definition blk_demo :: override_symbol_inst where
  "blk_demo = \<lparr>org_sym_ptr = 0xdead, new_sym_ptr = 0xbeef,
               org_sym_code = [1, 2, 3, 4, 5, 6, 7, 8, 9, 10, 11, 12],
               trampoline = [0, 0, 0, 0, 0, 0, 0, 0, 0, 0, 0, 0],
               installed = True, has_trampoline = True,
               mem_protected = False, name = ''stale''\<rparr>"

definition st_demo :: kstate where
  "st_demo = \<lparr>bytes = (\<lambda>_. 0x90), ptes = (\<lambda>_. 0x161), wlog = [],
              syscall_table_ptr = 0, overridden_syscall = (\<lambda>_. 0)\<rparr>"

definition ovs_demo :: override_symbol_inst where
  "ovs_demo = \<lparr>org_sym_ptr = 0xffffffff81000010, new_sym_ptr = 0xffffffffa0000000,
               org_sym_code = [1, 2, 3, 4, 5, 6, 7, 8, 9, 10, 11, 12],
               trampoline = [0, 0, 0, 0, 0, 0, 0, 0, 0, 0, 0, 0],
               installed = False, has_trampoline = False,
               mem_protected = True, name = ''printk''\<rparr>"

text \<open>
  A kernel that resolves no name at all; and a state in which the table has been located at
  \<^verbatim>\<open>0xffffffff81800000\<close>, slot 0 holds the handler \<^verbatim>\<open>0xffffffff81200000\<close>, every other
  slot holds a null pointer, and nothing has been overridden.
\<close>

definition env_bare :: kernel_env where
  "env_bare = \<lparr>kallsyms_lookup_name = (\<lambda>_. 0), NR_syscall_max = 332\<rparr>"

definition st_sys :: kstate where
  "st_sys = \<lparr>bytes = write_bytes (\<lambda>_. 0) 0xffffffff81800000 (le_bytes 0xffffffff81200000),
             ptes = (\<lambda>_. 0x161), wlog = [],
             syscall_table_ptr = 0xffffffff81800000, overridden_syscall = (\<lambda>_. 0)\<rparr>"

text \<open>The same state before the table has been located.\<close>

definition st_cold :: kstate where
  "st_cold = st_sys\<lparr>syscall_table_ptr := 0\<rparr>"

text \<open>
  A kernel that does not export \<^verbatim>\<open>sys_call_table\<close> but resolves the four handlers the
  scan needs, at the addresses the source's comment lists.
\<close>

definition env_scan :: kernel_env where
  "env_scan = \<lparr>kallsyms_lookup_name =
                  (\<lambda>_. 0)(''sys_close'' := 0xffffffff860c18b0, ''sys_open'' := 0xffffffff860c37a0,
                           ''sys_read'' := 0xffffffff860c7a80, ''sys_write'' := 0xffffffff860c7ba0),
               NR_syscall_max = 332\<rparr>"

section \<open>A call sequence on the registry\<close>

text \<open>
  Two overrides of the same number followed by a restore, each on the state the previous
  call left. The result lists the three return values, the registry record of the number
  after each call, and the content of the table slot at the end.
\<close>

definition override_override_restore ::
  "kernel_env \<Rightarrow> kstate \<Rightarrow> 32 word \<Rightarrow> addr \<Rightarrow> addr
     \<Rightarrow> ((errno + addr option) \<times> (errno + addr option) \<times> (errno + unit)
          \<times> addr \<times> addr \<times> addr \<times> addr) option" where
  "override_override_restore env st n p1 p2 =
     do {
       (r1, st1) \<leftarrow> override_syscall env st n p1 True;
       (r2, st2) \<leftarrow> override_syscall env st1 n p2 True;
       (r3, st3) \<leftarrow> restore_syscall env st2 n;
       Some (r1, r2, r3, overridden_syscall st1 (unat n), overridden_syscall st2 (unat n),
             overridden_syscall st3 (unat n),
             read64 (bytes st3) (slot_addr (syscall_table_ptr st3) (ucast n)))
     }"

section \<open>Facts about memory\<close>

text \<open>A byte outside the destination range is not touched by \<open>write_bytes\<close>.\<close>

lemma write_bytes_other:
  "\<forall>i < length bs. x \<noteq> a + of_nat i \<Longrightarrow> write_bytes m a bs x = m x"
proof (induction bs arbitrary: m a)
  case Nil
  then show ?case by simp
next
  case (Cons b bs)
  have "\<forall>i < length bs. x \<noteq> (a + 1) + of_nat i"
  proof (intro allI impI)
    fix i assume "i < length bs"
    then have "x \<noteq> a + of_nat (Suc i)" using Cons.prems by auto
    then show "x \<noteq> (a + 1) + of_nat i" by (simp add: ac_simps)
  qed
  from Cons.IH[OF this] have "write_bytes (m(a := b)) (a + 1) bs x = (m(a := b)) x" .
  moreover have "x \<noteq> a" using Cons.prems[rule_format, of 0] by simp
  ultimately show ?case by simp
qed

lemma of_nat_word_neq0:
  "0 < n \<Longrightarrow> n < 2 ^ 64 \<Longrightarrow> (of_nat n :: 64 word) \<noteq> 0"
  by (auto simp: word_of_nat_eq_0_iff dest: nat_dvd_not_less)

text \<open>Reading back what was just copied, also when the range wraps past the last address.\<close>

lemma read_write_bytes:
  "length bs < 2 ^ 64 \<Longrightarrow> read_bytes (write_bytes m a bs) a (length bs) = bs"
proof (induction bs arbitrary: m a)
  case Nil
  then show ?case by simp
next
  case (Cons b bs)
  have "\<forall>i < length bs. a \<noteq> (a + 1) + of_nat i"
  proof (intro allI impI)
    fix i assume i: "i < length bs"
    have "(of_nat (Suc i) :: 64 word) \<noteq> 0"
      using i Cons.prems by (intro of_nat_word_neq0) auto
    then show "a \<noteq> (a + 1) + of_nat i" by (simp add: add.assoc)
  qed
  then have "write_bytes (m(a := b)) (a + 1) bs a = b"
    by (simp add: write_bytes_other)
  moreover have "read_bytes (write_bytes (m(a := b)) (a + 1) bs) (a + 1) (length bs) = bs"
    using Cons.prems by (intro Cons.IH) simp
  ultimately show ?case by simp
qed

lemma length_read_bytes: "length (read_bytes m a n) = n"
  by (induction n arbitrary: a) simp_all

lemma le_bytes_unfold:
  "le_bytes v = [ucast v, ucast (drop_bit 8 v), ucast (drop_bit 16 v), ucast (drop_bit 24 v),
     ucast (drop_bit 32 v), ucast (drop_bit 40 v), ucast (drop_bit 48 v), ucast (drop_bit 56 v)]"
  by (simp add: le_bytes_def upt_rec)

lemma length_le_bytes: "length (le_bytes v) = 8"
  by (simp add: le_bytes_def)

lemma of_le_bytes_le_bytes: "of_le_bytes (le_bytes v) = v"
  unfolding le_bytes_unfold of_le_bytes_def
  apply simp
  apply (rule bit_word_eqI)
  apply (simp add: bit_simps)
  subgoal for n
    apply (cases "n < 8"; cases "n < 16"; cases "n < 24"; cases "n < 32"; cases "n < 40";
           cases "n < 48"; cases "n < 56")
    apply simp_all
    apply auto
    done
  done

lemma read64_write_bytes: "read64 (write_bytes m a (le_bytes v)) a = v"
proof -
  have "read_bytes (write_bytes m a (le_bytes v)) a (length (le_bytes v)) = le_bytes v"
    by (rule read_write_bytes) (simp add: length_le_bytes)
  then show ?thesis
    by (simp add: read64_def length_le_bytes of_le_bytes_le_bytes)
qed

lemma read_bytes_8:
  "read_bytes m a 8 = [m a, m (a + 1), m (a + 2), m (a + 3), m (a + 4), m (a + 5), m (a + 6), m (a + 7)]"
  by (simp add: eval_nat_numeral add.assoc)

lemma read64_const: "read64 (\<lambda>_. 0x90) a = 0x9090909090909090"
  by (simp add: read64_def read_bytes_8 of_le_bytes_def)

lemma st_sys_slot0: "read64 (bytes st_sys) (slot_addr (syscall_table_ptr st_sys) 0) = 0xffffffff81200000"
  by (simp add: st_sys_def slot_addr_def read64_write_bytes)

lemma st_sys_slot1: "read64 (bytes st_sys) (slot_addr (syscall_table_ptr st_sys) 1) = 0"
  by (simp add: st_sys_def slot_addr_def read64_def read_bytes_8 le_bytes_unfold of_le_bytes_def)

lemma st_sys_slot332:
  "read64 (bytes st_sys) 0xffffffff81800a60 = 0"
  by (simp add: st_sys_def read64_def read_bytes_8 le_bytes_unfold of_le_bytes_def)

section \<open>Facts about the protection loops\<close>

text \<open>
  Below the last page of the address space the two loops exit, whatever address they
  start from: while \<open>a \<le> vaddr\<close> the step \<open>a + PAGE_SIZE\<close> does not wrap.
\<close>

lemma set_mem_rw_loop_exits:
  assumes "vaddr < 0xFFFFFFFFFFFFF000"
  shows "\<exists>pt'. set_mem_rw_loop pt a vaddr = Some pt'"
  using assms
proof (induction "unat vaddr + 1 - unat a" arbitrary: a pt rule: less_induct)
  case less
  show ?case
  proof (cases "a \<le> vaddr")
    case False
    then show ?thesis by (subst set_mem_rw_loop.simps) simp
  next
    case True
    have v: "unat vaddr < 2 ^ 64 - 4096"
      using less.prems by (simp add: word_less_nat_alt)
    have "unat a + unat PAGE_SIZE < 2 ^ LENGTH(64)"
      using True v by (simp add: word_le_nat_alt PAGE_SIZE_def)
    then have "unat (a + PAGE_SIZE) = unat a + unat PAGE_SIZE"
      by (rule unat_add_lem [THEN iffD1])
    then have u: "unat (a + PAGE_SIZE) = unat a + 4096"
      by (simp add: PAGE_SIZE_def)
    have "unat vaddr + 1 - unat (a + PAGE_SIZE) < unat vaddr + 1 - unat a"
      using True u by (simp add: word_le_nat_alt)
    from less.hyps[OF this less.prems] show ?thesis
      using True by (subst set_mem_rw_loop.simps) simp
  qed
qed

lemma set_mem_ro_loop_exits:
  assumes "vaddr < 0xFFFFFFFFFFFFF000"
  shows "\<exists>pt'. set_mem_ro_loop pt a vaddr = Some pt'"
  using assms
proof (induction "unat vaddr + 1 - unat a" arbitrary: a pt rule: less_induct)
  case less
  show ?case
  proof (cases "a \<le> vaddr")
    case False
    then show ?thesis by (subst set_mem_ro_loop.simps) simp
  next
    case True
    have v: "unat vaddr < 2 ^ 64 - 4096"
      using less.prems by (simp add: word_less_nat_alt)
    have "unat a + unat PAGE_SIZE < 2 ^ LENGTH(64)"
      using True v by (simp add: word_le_nat_alt PAGE_SIZE_def)
    then have "unat (a + PAGE_SIZE) = unat a + unat PAGE_SIZE"
      by (rule unat_add_lem [THEN iffD1])
    then have u: "unat (a + PAGE_SIZE) = unat a + 4096"
      by (simp add: PAGE_SIZE_def)
    have "unat vaddr + 1 - unat (a + PAGE_SIZE) < unat vaddr + 1 - unat a"
      using True u by (simp add: word_le_nat_alt)
    from less.hyps[OF this less.prems] show ?thesis
      using True by (subst set_mem_ro_loop.simps) simp
  qed
qed

lemma set_mem_rw_returns:
  "vaddr < 0xFFFFFFFFFFFFF000 \<Longrightarrow> \<exists>pt'. set_mem_rw pt vaddr len = Some pt'"
  unfolding set_mem_rw_def by (rule set_mem_rw_loop_exits)

lemma set_mem_ro_returns:
  "vaddr < 0xFFFFFFFFFFFFF000 \<Longrightarrow> \<exists>pt'. set_mem_ro pt vaddr len = Some pt'"
  unfolding set_mem_ro_def by (rule set_mem_ro_loop_exits)

text \<open>
  In the last page the loops never exit: the cursor stays page-aligned, every page-aligned
  address is at most \<^verbatim>\<open>0xfffffffffffff000\<close>, and the step from there wraps to 0. So the
  bound on the address in the facts above, and in the properties that use them, is needed.
\<close>

lemma aligned_step:
  assumes "4096 dvd uint (a :: 64 word)" shows "4096 dvd uint (a + PAGE_SIZE)"
proof -
  have "uint (a + 4096) = (uint a + 4096) mod 2 ^ 64"
    by (simp add: uint_word_ariths)
  moreover have "(4096 :: int) dvd 2 ^ 64" by simp
  ultimately show ?thesis using assms by (simp add: dvd_mod PAGE_SIZE_def)
qed

lemma aligned_le_top:
  assumes "4096 dvd uint (a :: 64 word)" shows "a \<le> 0xFFFFFFFFFFFFF000"
proof -
  from assms obtain k where k: "uint a = 4096 * k" by (auto simp: dvd_def)
  have "uint a < 2 ^ 64" using uint_lt2p[of a] by simp
  with k have "k < 2 ^ 52" by simp
  then have "k \<le> 2 ^ 52 - 1" by simp
  then have "uint a \<le> 4096 * (2 ^ 52 - 1)" using k by simp
  then show ?thesis by (simp add: word_le_def)
qed

lemma PAGE_ALIGN_BOTTOM_aligned: "4096 dvd uint (PAGE_ALIGN_BOTTOM v)"
proof -
  let ?x = "(v + (4096 - 1)) AND NOT (4096 - 1)"
  have m: "(4096 - 1 :: 64 word) = mask 12" by (simp add: mask_eq_exp_minus_1)
  have "?x AND mask 12 = 0" unfolding m by (simp add: and.assoc)
  then have x: "2 ^ 12 dvd uint ?x" by (simp only: and_mask_dvd)
  have "uint (?x - 4096) = (uint ?x - 4096) mod 2 ^ 64"
    by (simp add: uint_word_ariths)
  moreover have "(4096 :: int) dvd 2 ^ 64" by simp
  moreover have "(4096 :: int) dvd uint ?x - 4096" using x by simp
  ultimately have "4096 dvd uint (?x - 4096)" by (simp only: dvd_mod)
  then show ?thesis
    by (simp add: PAGE_ALIGN_BOTTOM_def PAGE_ALIGN_def PAGE_MASK_def PAGE_SIZE_def)
qed

lemma set_mem_rw_loop_last_page:
  assumes "set_mem_rw_loop pt a vaddr = Some pt'"
  shows "\<not> (0xFFFFFFFFFFFFF000 \<le> vaddr \<and> 4096 dvd uint a)"
proof (rule set_mem_rw_loop.raw_induct
    [where P = "\<lambda>pt a vaddr pt'. \<not> (0xFFFFFFFFFFFFF000 \<le> vaddr \<and> 4096 dvd uint a)",
     OF _ assms], goal_cases)
  case (1 loop pt a vaddr pt')
  show ?case
  proof
    assume h: "0xFFFFFFFFFFFFF000 \<le> vaddr \<and> 4096 dvd uint a"
    then have "a \<le> 0xFFFFFFFFFFFFF000" by (intro aligned_le_top) simp
    with h have "a \<le> vaddr" by (meson order_trans)
    with 1(2) have "loop (pt(frame_of a := pt (frame_of a) OR PAGE_RW)) (a + PAGE_SIZE) vaddr = Some pt'"
      by simp
    from 1(1)[OF this] h aligned_step[of a] show False by simp
  qed
qed

lemma set_mem_rw_last_page:
  assumes "0xFFFFFFFFFFFFF000 \<le> vaddr"
  shows "set_mem_rw pt vaddr len = None"
proof (cases "set_mem_rw pt vaddr len")
  case None
  then show ?thesis .
next
  case (Some pt')
  then have "set_mem_rw_loop pt (PAGE_ALIGN_BOTTOM vaddr) vaddr = Some pt'"
    by (simp add: set_mem_rw_def)
  from set_mem_rw_loop_last_page[OF this] assms PAGE_ALIGN_BOTTOM_aligned
  show ?thesis by simp
qed

lemmas page_defs = PAGE_ALIGN_BOTTOM_def PAGE_ALIGN_def PAGE_MASK_def PAGE_SIZE_def frame_of_def
  PAGE_SHIFT_def PAGE_RW_def

text \<open>
  The loops at the addresses of the examples. For the page-aligned address of the table the
  loop starts one page lower, since \<^verbatim>\<open>PAGE_ALIGN\<close> leaves an aligned address where it is,
  and touches two frames.
\<close>

lemma set_mem_rw_printk:
  "set_mem_rw pt 0xffffffff81000010 len
     = Some (pt(0xffffffff81000 := pt 0xffffffff81000 OR 2))"
  by (simp add: set_mem_rw_def set_mem_rw_loop.simps page_defs)

lemma set_mem_rw_slot0:
  "set_mem_rw pt 0xffffffff81800000 len
     = Some (pt(0xffffffff817ff := pt 0xffffffff817ff OR 2,
                0xffffffff81800 := pt 0xffffffff81800 OR 2))"
  by (simp add: set_mem_rw_def set_mem_rw_loop.simps page_defs)

lemma set_mem_ro_slot0:
  "set_mem_ro pt 0xffffffff81800000 len
     = Some (pt(0xffffffff817ff := pt 0xffffffff817ff AND NOT 2,
                0xffffffff81800 := pt 0xffffffff81800 AND NOT 2))"
  by (simp add: set_mem_ro_def set_mem_ro_loop.simps page_defs)

section \<open>Facts about the override instance\<close>

lemma disable_mem_protection_returns:
  assumes "org_sym_ptr ovs < 0xFFFFFFFFFFFFF000"
  shows "\<exists>pt. disable_mem_protection st ovs = Some (st\<lparr>ptes := pt\<rparr>, ovs\<lparr>mem_protected := False\<rparr>)"
proof -
  from set_mem_rw_returns[OF assms] obtain pt
    where "set_mem_rw (ptes st) (org_sym_ptr ovs) (of_nat OVERRIDE_JUMP_SIZE) = Some pt"
    by blast
  then show ?thesis by (intro exI[of _ pt]) (simp add: disable_mem_protection_def)
qed

lemma unprotect_returns:
  assumes "org_sym_ptr ovs < 0xFFFFFFFFFFFFF000"
  shows "\<exists>pt. (if mem_protected ovs then disable_mem_protection st ovs else Some (st, ovs))
           = Some (st\<lparr>ptes := pt\<rparr>, ovs\<lparr>mem_protected := False\<rparr>)"
proof (cases "mem_protected ovs")
  case True
  then show ?thesis using disable_mem_protection_returns[OF assms] by simp
next
  case False
  then have "(st, ovs) = (st\<lparr>ptes := ptes st\<rparr>, ovs\<lparr>mem_protected := False\<rparr>)" by simp
  then show ?thesis using False by (intro exI[of _ "ptes st"]) simp
qed

text \<open>What an enable does to an instance that is not installed.\<close>

lemma enable_symbol_override_installs:
  assumes "\<not> installed ovs" and "org_sym_ptr ovs < 0xFFFFFFFFFFFFF000"
  shows "\<exists>pt. enable_symbol_override st ovs =
           Some (Inr (),
                 store_bytes (st\<lparr>ptes := pt\<rparr>) (org_sym_ptr ovs)
                   (take OVERRIDE_JUMP_SIZE
                      (trampoline (if \<not> has_trampoline ovs then prepare_trampoline st ovs else ovs))),
                 (if \<not> has_trampoline ovs then prepare_trampoline st ovs else ovs)
                   \<lparr>mem_protected := False, installed := True\<rparr>)"
proof -
  let ?o1 = "if \<not> has_trampoline ovs then prepare_trampoline st ovs else ovs"
  have p: "org_sym_ptr ?o1 = org_sym_ptr ovs" by (simp add: prepare_trampoline_def)
  then have "org_sym_ptr ?o1 < 0xFFFFFFFFFFFFF000" using assms(2) by simp
  from unprotect_returns[OF this, of st] obtain pt where
    u: "(if mem_protected ?o1 then disable_mem_protection st ?o1 else Some (st, ?o1))
          = Some (st\<lparr>ptes := pt\<rparr>, ?o1\<lparr>mem_protected := False\<rparr>)" by blast
  show ?thesis
    apply (rule exI[of _ pt])
    unfolding enable_symbol_override_def Let_def
    using assms(1) p by (simp only: u if_False) simp
qed

text \<open>What a disable does to an installed instance.\<close>

lemma disable_symbol_override_removes:
  assumes "installed ovs" and "org_sym_ptr ovs < 0xFFFFFFFFFFFFF000"
  shows "\<exists>pt. disable_symbol_override st ovs =
           Some (Inr (),
                 store_bytes (st\<lparr>ptes := pt\<rparr>) (org_sym_ptr ovs)
                   (take OVERRIDE_JUMP_SIZE (org_sym_code ovs)),
                 ovs\<lparr>mem_protected := False, installed := False\<rparr>)"
proof -
  from unprotect_returns[OF assms(2), of st] obtain pt where
    u: "(if mem_protected ovs then disable_mem_protection st ovs else Some (st, ovs))
          = Some (st\<lparr>ptes := pt\<rparr>, ovs\<lparr>mem_protected := False\<rparr>)" by blast
  show ?thesis
    apply (rule exI[of _ pt])
    unfolding disable_symbol_override_def Let_def
    using assms(1) by (simp only: u if_False) simp
qed

lemma enable_symbol_override_noop:
  "installed ovs \<Longrightarrow> enable_symbol_override st ovs = Some (Inr (), st, ovs)"
  by (simp add: enable_symbol_override_def)

lemma disable_symbol_override_noop:
  "\<not> installed ovs \<Longrightarrow> disable_symbol_override st ovs = Some (Inr (), st, ovs)"
  by (simp add: disable_symbol_override_def)

lemma created_instance:
  assumes "get_ov_symbol_instance env kmalloc nm new_ptr = Inr ovs"
  shows "\<not> installed ovs \<and> \<not> has_trampoline ovs \<and> mem_protected ovs \<and> new_sym_ptr ovs = new_ptr
         \<and> org_sym_ptr ovs = kallsyms_lookup_name env nm \<and> org_sym_ptr ovs \<noteq> 0"
  using assms
  by (auto simp: get_ov_symbol_instance_def Let_def split: option.splits if_splits)

lemma trampoline_prepared:
  "trampoline (prepare_trampoline st ovs) =
     [0x48, 0xb8] @ le_bytes (new_sym_ptr ovs) @ [0xff, 0xe0]"
  by (simp add: prepare_trampoline_def store_long_def OVERRIDE_JUMP_SIZE_def JUMP_ADDR_POS_def
      jump_tpl_def)

lemma created_demo:
  "get_ov_symbol_instance env_demo (Some blk_demo) ''printk'' 0xffffffffa0000000 = Inr ovs_demo"
  by (simp add: get_ov_symbol_instance_def env_demo_def blk_demo_def ovs_demo_def)

text \<open>In the last page an enable of a created instance never returns.\<close>

lemma enable_symbol_override_last_page:
  assumes "get_ov_symbol_instance env kmalloc nm new_ptr = Inr ovs"
      and "0xFFFFFFFFFFFFF000 \<le> org_sym_ptr ovs"
  shows "enable_symbol_override st ovs = None"
proof -
  note c = created_instance[OF assms(1)]
  have "set_mem_rw (ptes st) (org_sym_ptr ovs) (of_nat OVERRIDE_JUMP_SIZE) = None"
    by (rule set_mem_rw_last_page[OF assms(2)])
  then show ?thesis
    using c by (simp add: enable_symbol_override_def disable_mem_protection_def
        prepare_trampoline_def Let_def)
qed

section \<open>Facts about the table scan\<close>

text \<open>
  The scan moves in strides of eight, so the residue of \<open>i\<close> modulo 8 never changes, and
  the loop condition \<^verbatim>\<open>i < ULONG_MAX\<close> can only fail for a start that is 7 modulo 8.
\<close>

lemma stride_keeps_residue: "unat (i + 8 :: 64 word) mod 8 = unat i mod 8"
proof -
  have "unat (i + 8) = (unat i + 8) mod 2 ^ 64"
    by (simp add: unat_word_ariths)
  moreover have "(8 :: nat) dvd 2 ^ 64" by simp
  ultimately have "unat (i + 8) mod 8 = (unat i + 8) mod 8"
    by (simp only: mod_mod_cancel)
  then show ?thesis by simp
qed

lemma ULONG_MAX_residue: "unat ULONG_MAX mod 8 = 7"
  by (simp add: ULONG_MAX_def unsigned_minus_1_eq_mask mask_eq_exp_minus_1)

lemma not_below_ULONG_MAX: "\<not> i < ULONG_MAX \<Longrightarrow> i = ULONG_MAX"
  unfolding ULONG_MAX_def using word_order.not_eq_extremum by blast

lemma scan_sys_call_table_result:
  assumes "scan_sys_call_table m c opn r w i = Some y"
  shows "(case y of Some t \<Rightarrow> table_matches m t c opn r w | None \<Rightarrow> unat i mod 8 = 7)"
proof (rule scan_sys_call_table.raw_induct
    [where P = "\<lambda>m c opn r w i y.
                  case y of Some t \<Rightarrow> table_matches m t c opn r w | None \<Rightarrow> unat i mod 8 = 7",
     OF _ assms], goal_cases)
  case (1 scan m c opn r w i y)
  show ?case
  proof (cases "i < ULONG_MAX")
    case False
    with 1(2) have "y = None" by simp
    moreover from False have "i = ULONG_MAX" by (rule not_below_ULONG_MAX)
    ultimately show ?thesis by (simp add: ULONG_MAX_residue)
  next
    case True
    show ?thesis
    proof (cases "table_matches m i c opn r w")
      case True
      with \<open>i < ULONG_MAX\<close> 1(2) show ?thesis by auto
    next
      case False
      with \<open>i < ULONG_MAX\<close> 1(2) have "scan m c opn r w (i + 8) = Some y" by simp
      from 1(1)[OF this] show ?thesis by (simp add: stride_keeps_residue split: option.splits)
    qed
  qed
qed

text \<open>Locating the table changes nothing but the cached base.\<close>

lemma find_sys_call_table_frame:
  assumes "find_sys_call_table env st = Some (r, st1)"
  shows "\<exists>t. st1 = st\<lparr>syscall_table_ptr := t\<rparr>"
  using assms
  by (auto simp: find_sys_call_table_def Let_def split: if_splits option.splits Option.bind_splits)

section \<open>Facts about the syscall registry\<close>

text \<open>One override, in a located table, of a number within bounds.\<close>

lemma override_syscall_cached:
  assumes "syscall_table_ptr st \<noteq> 0"
      and "syscall_num \<le> NR_syscall_max env"
      and "slot_addr (syscall_table_ptr st) (ucast syscall_num) < 0xFFFFFFFFFFFFF000"
  shows "\<exists>pt. override_syscall env st syscall_num p w =
           Some (Inr (if w then Some (if overridden_syscall st (unat syscall_num) \<noteq> 0
                                      then overridden_syscall st (unat syscall_num)
                                      else read64 (bytes st) (slot_addr (syscall_table_ptr st) (ucast syscall_num)))
                      else None),
                 st\<lparr>bytes := write_bytes (bytes st) (slot_addr (syscall_table_ptr st) (ucast syscall_num)) (le_bytes p),
                    ptes := pt,
                    wlog := wlog st @ [(slot_addr (syscall_table_ptr st) (ucast syscall_num), le_bytes p)],
                    overridden_syscall := (overridden_syscall st)
                      (unat syscall_num :=
                         (if overridden_syscall st (unat syscall_num) \<noteq> 0
                          then overridden_syscall st (unat syscall_num)
                          else read64 (bytes st) (slot_addr (syscall_table_ptr st) (ucast syscall_num))))\<rparr>)"
proof -
  let ?slot = "slot_addr (syscall_table_ptr st) (ucast syscall_num)"
  from set_mem_rw_returns[OF assms(3)] obtain pt1 where
    rw: "set_mem_rw (ptes st) ?slot 8 = Some pt1" by blast
  from set_mem_ro_returns[OF assms(3)] obtain pt2 where
    ro: "set_mem_ro pt1 ?slot 8 = Some pt2" by blast
  have n: "\<not> NR_syscall_max env < syscall_num" using assms(2) by simp
  show ?thesis
    apply (rule exI[of _ pt2])
    using assms(1) n rw ro
    by (simp add: override_syscall_def Let_def store_bytes_def)
qed

lemma restore_syscall_cached:
  assumes "syscall_table_ptr st \<noteq> 0"
      and "syscall_num \<le> NR_syscall_max env"
      and "overridden_syscall st (unat syscall_num) \<noteq> 0"
      and "slot_addr (syscall_table_ptr st) (ucast syscall_num) < 0xFFFFFFFFFFFFF000"
  shows "\<exists>pt. restore_syscall env st syscall_num =
           Some (Inr (),
                 st\<lparr>bytes := write_bytes (bytes st) (slot_addr (syscall_table_ptr st) (ucast syscall_num))
                               (le_bytes (overridden_syscall st (unat syscall_num))),
                    ptes := pt,
                    wlog := wlog st @ [(slot_addr (syscall_table_ptr st) (ucast syscall_num),
                                        le_bytes (overridden_syscall st (unat syscall_num)))]\<rparr>)"
proof -
  let ?slot = "slot_addr (syscall_table_ptr st) (ucast syscall_num)"
  from set_mem_rw_returns[OF assms(4)] obtain pt1 where
    rw: "set_mem_rw (ptes st) ?slot 8 = Some pt1" by blast
  from set_mem_rw_returns[OF assms(4)] obtain pt2 where
    rw2: "set_mem_rw pt1 ?slot 8 = Some pt2" by blast
  have n: "\<not> NR_syscall_max env < syscall_num" using assms(2) by simp
  show ?thesis
    apply (rule exI[of _ pt2])
    using assms(1,3) n rw rw2
    by (simp add: restore_syscall_def Let_def store_bytes_def)
qed

text \<open>With the slot in the last page an override never returns.\<close>

lemma override_syscall_last_page:
  assumes "syscall_table_ptr st \<noteq> 0"
      and "syscall_num \<le> NR_syscall_max env"
      and "0xFFFFFFFFFFFFF000 \<le> slot_addr (syscall_table_ptr st) (ucast syscall_num)"
  shows "override_syscall env st syscall_num p w = None"
proof -
  have "set_mem_rw pt (slot_addr (syscall_table_ptr st) (ucast syscall_num)) 8 = None" for pt
    by (rule set_mem_rw_last_page[OF assms(3)])
  moreover have "\<not> NR_syscall_max env < syscall_num" using assms(2) by simp
  ultimately show ?thesis
    using assms(1) by (simp add: override_syscall_def Let_def)
qed

lemma override_override_restore_result:
  assumes "syscall_table_ptr st \<noteq> 0"
      and "n \<le> NR_syscall_max env"
      and "slot_addr (syscall_table_ptr st) (ucast n) < 0xFFFFFFFFFFFFF000"
      and "overridden_syscall st (unat n) = 0"
      and "g = read64 (bytes st) (slot_addr (syscall_table_ptr st) (ucast n))"
      and "g2 = (if g \<noteq> 0 then g else p1)"
      and "g2 \<noteq> 0"
  shows "override_override_restore env st n p1 p2 =
           Some (Inr (Some g), Inr (Some g2), Inr (), g, g2, g2, g2)"
proof -
  let ?slot = "slot_addr (syscall_table_ptr st) (ucast n)"
  from override_syscall_cached[OF assms(1,2,3), of p1 True] assms(4,5) obtain pt1 where
    o1: "override_syscall env st n p1 True =
           Some (Inr (Some g),
                 st\<lparr>bytes := write_bytes (bytes st) ?slot (le_bytes p1), ptes := pt1,
                    wlog := wlog st @ [(?slot, le_bytes p1)],
                    overridden_syscall := (overridden_syscall st)(unat n := g)\<rparr>)"
    by auto
  let ?st1 = "st\<lparr>bytes := write_bytes (bytes st) ?slot (le_bytes p1), ptes := pt1,
                    wlog := wlog st @ [(?slot, le_bytes p1)],
                    overridden_syscall := (overridden_syscall st)(unat n := g)\<rparr>"
  have t1: "syscall_table_ptr ?st1 = syscall_table_ptr st" by simp
  have a1: "syscall_table_ptr ?st1 \<noteq> 0" using assms(1) by simp
  have a3: "slot_addr (syscall_table_ptr ?st1) (ucast n) < 0xFFFFFFFFFFFFF000"
    using assms(3) by simp
  have rd1: "read64 (bytes ?st1) ?slot = p1" by (simp add: read64_write_bytes)
  have reg1: "overridden_syscall ?st1 (unat n) = g" by simp
  have g2': "(if overridden_syscall ?st1 (unat n) \<noteq> 0 then overridden_syscall ?st1 (unat n)
              else read64 (bytes ?st1) (slot_addr (syscall_table_ptr ?st1) (ucast n))) = g2"
    unfolding t1 rd1 reg1 using assms(6) by simp
  from override_syscall_cached[OF a1 assms(2) a3, of p2 True] obtain pt2 where
    o2: "override_syscall env ?st1 n p2 True =
           Some (Inr (Some g2),
                 ?st1\<lparr>bytes := write_bytes (bytes ?st1) ?slot (le_bytes p2), ptes := pt2,
                    wlog := wlog ?st1 @ [(?slot, le_bytes p2)],
                    overridden_syscall := (overridden_syscall ?st1)(unat n := g2)\<rparr>)"
    unfolding g2' unfolding t1 by auto
  let ?st2 = "?st1\<lparr>bytes := write_bytes (bytes ?st1) ?slot (le_bytes p2), ptes := pt2,
                    wlog := wlog ?st1 @ [(?slot, le_bytes p2)],
                    overridden_syscall := (overridden_syscall ?st1)(unat n := g2)\<rparr>"
  have b1: "syscall_table_ptr ?st2 \<noteq> 0" using assms(1) by simp
  have b3: "slot_addr (syscall_table_ptr ?st2) (ucast n) < 0xFFFFFFFFFFFFF000"
    using assms(3) by simp
  have reg2: "overridden_syscall ?st2 (unat n) = g2" by simp
  have b4: "overridden_syscall ?st2 (unat n) \<noteq> 0" using assms(7) by simp
  from restore_syscall_cached[OF b1 assms(2) b4 b3] obtain pt3 where
    r3: "restore_syscall env ?st2 n =
           Some (Inr (),
                 ?st2\<lparr>bytes := write_bytes (bytes ?st2) (slot_addr (syscall_table_ptr ?st2) (ucast n))
                               (le_bytes (overridden_syscall ?st2 (unat n))),
                    ptes := pt3,
                    wlog := wlog ?st2 @ [(slot_addr (syscall_table_ptr ?st2) (ucast n),
                                        le_bytes (overridden_syscall ?st2 (unat n)))]\<rparr>)"
    by blast
  show ?thesis
    unfolding override_override_restore_def o1
    apply (simp only: bind.bind_lunit prod.case o2 r3)
    apply (simp add: read64_write_bytes)
    done
qed

text \<open>
  An override that has to locate the table first goes on as an override on the state with
  the base found.
\<close>

lemma table_located_frame:
  assumes "table_located env st = Some (r, stL)"
  shows "\<exists>t. stL = st\<lparr>syscall_table_ptr := t\<rparr>"
proof (cases "syscall_table_ptr st = 0")
  case True
  with assms show ?thesis by (simp add: table_located_def find_sys_call_table_frame)
next
  case False
  with assms have "stL = st\<lparr>syscall_table_ptr := syscall_table_ptr st\<rparr>"
    by (simp add: table_located_def)
  then show ?thesis by blast
qed

lemma override_syscall_after_locate:
  assumes "table_located env st = Some (Inr (), stL)" and "syscall_table_ptr stL \<noteq> 0"
  shows "override_syscall env st n p w = override_syscall env stL n p w"
proof -
  have l: "(if syscall_table_ptr st = 0 then find_sys_call_table env st else Some (Inr (), st))
             = Some (Inr (), stL)"
    using assms(1) by (simp add: table_located_def)
  have r: "(if syscall_table_ptr stL = 0 then find_sys_call_table env stL else Some (Inr (), stL))
             = Some (Inr (), stL)"
    using assms(2) by simp
  show ?thesis
    unfolding override_syscall_def by (simp only: l r)
qed

lemma override_override_restore_after_locate:
  assumes "table_located env st = Some (Inr (), stL)" and "syscall_table_ptr stL \<noteq> 0"
  shows "override_override_restore env st n p1 p2 = override_override_restore env stL n p1 p2"
  unfolding override_override_restore_def
  by (simp only: override_syscall_after_locate[OF assms])

lemma table_located_demo: "table_located env_demo st_cold = Some (Inr (), st_sys)"
  by (simp add: table_located_def find_sys_call_table_def env_demo_def st_cold_def st_sys_def Let_def)

section \<open>The properties of the specification\<close>

text \<open>
  C1, at a failing input. With every page read-only at the start, \<^verbatim>\<open>override_symbol_ng\<close>
  returns an instance whose flag says protected while the page of the symbol is writable;
  \<^verbatim>\<open>restore_symbol_ng\<close> leaves it writable too. In the located table
  \<^verbatim>\<open>override_syscall\<close> leaves the page of the slot read-only, as claimed, and
  \<^verbatim>\<open>restore_syscall\<close> leaves it writable.
\<close>

theorem public_operations_leave_memory_writable:
  "(\<exists>ovs st1 st2.
      override_symbol_ng env_demo (Some blk_demo) st_demo ''printk'' 0xffffffffa0000000
        = Some (Inr ovs, st1) \<and>
      org_sym_ptr ovs = 0xffffffff81000010 \<and>
      \<not> writable (ptes st_demo) (org_sym_ptr ovs) \<and>
      mem_protected ovs \<and> writable (ptes st1) (org_sym_ptr ovs) \<and>
      restore_symbol_ng st1 ovs = Some (Inr (), st2) \<and>
      writable (ptes st2) (org_sym_ptr ovs)) \<and>
   (\<exists>r st1 st2.
      \<not> writable (ptes st_sys) (slot_addr (syscall_table_ptr st_sys) 0) \<and>
      override_syscall env_demo st_sys 0 0xffffffffa0000300 True = Some (Inr r, st1) \<and>
      \<not> writable (ptes st1) (slot_addr (syscall_table_ptr st_sys) 0) \<and>
      restore_syscall env_demo st1 0 = Some (Inr (), st2) \<and>
      writable (ptes st2) (slot_addr (syscall_table_ptr st_sys) 0))"
proof (rule conjI)
  show "\<exists>ovs st1 st2.
      override_symbol_ng env_demo (Some blk_demo) st_demo ''printk'' 0xffffffffa0000000
        = Some (Inr ovs, st1) \<and>
      org_sym_ptr ovs = 0xffffffff81000010 \<and>
      \<not> writable (ptes st_demo) (org_sym_ptr ovs) \<and>
      mem_protected ovs \<and> writable (ptes st1) (org_sym_ptr ovs) \<and>
      restore_symbol_ng st1 ovs = Some (Inr (), st2) \<and>
      writable (ptes st2) (org_sym_ptr ovs)"
    by (simp add: override_symbol_ng_def created_demo enable_symbol_override_def
        disable_symbol_override_def restore_symbol_ng_def
        enable_mem_protection_def disable_mem_protection_def prepare_trampoline_def
        ovs_demo_def st_demo_def store_bytes_def set_mem_rw_printk writable_def
        frame_of_def PAGE_SHIFT_def PAGE_RW_def Let_def)
next
  show "\<exists>r st1 st2.
      \<not> writable (ptes st_sys) (slot_addr (syscall_table_ptr st_sys) 0) \<and>
      override_syscall env_demo st_sys 0 0xffffffffa0000300 True = Some (Inr r, st1) \<and>
      \<not> writable (ptes st1) (slot_addr (syscall_table_ptr st_sys) 0) \<and>
      restore_syscall env_demo st1 0 = Some (Inr (), st2) \<and>
      writable (ptes st2) (slot_addr (syscall_table_ptr st_sys) 0)"
    using st_sys_slot0
    by (simp add: override_syscall_def restore_syscall_def env_demo_def st_sys_def slot_addr_def
        store_bytes_def set_mem_rw_slot0 set_mem_ro_slot0 writable_def
        frame_of_def PAGE_SHIFT_def PAGE_RW_def Let_def)
qed

text \<open>
  C2, at a failing input: twelve bytes from \<^verbatim>\<open>0xffffffff81000ffa\<close> end in the next page.
  \<^verbatim>\<open>set_mem_rw\<close> sets the writable bit of the first frame only, and the frame of the last
  byte stays read-only; \<^verbatim>\<open>set_mem_ro\<close> clears the bit of the first frame only, and the
  frame of the last byte stays writable.
\<close>

theorem set_mem_len_ignored:
  "set_mem_rw (\<lambda>_. 0x161) 0xffffffff81000ffa 12 = Some ((\<lambda>_. 0x161)(0xffffffff81000 := 0x163)) \<and>
   frame_of 0xffffffff81000ffa = 0xffffffff81000 \<and>
   frame_of (0xffffffff81000ffa + 11) = 0xffffffff81001 \<and>
   \<not> writable ((\<lambda>_. 0x161)(0xffffffff81000 := 0x163)) (0xffffffff81000ffa + 11) \<and>
   set_mem_ro (\<lambda>_. 0x163) 0xffffffff81000ffa 12 = Some ((\<lambda>_. 0x163)(0xffffffff81000 := 0x161)) \<and>
   writable ((\<lambda>_. 0x163)(0xffffffff81000 := 0x161)) (0xffffffff81000ffa + 11)"
  by (simp add: set_mem_rw_def set_mem_ro_def set_mem_rw_loop.simps set_mem_ro_loop.simps
      writable_def page_defs)

text \<open>
  C3. First write wins, for a number whose slot holds a non-null pointer and that has no
  record yet. The table is located, before the calls or by the first of them (\<open>stL\<close> is
  the state with the base found), and the slot lies below the last page, where the
  protection loops exit. The first override records the slot's pointer; the second
  override leaves the record as it is; the restore puts the recorded pointer, not \<open>p1\<close>,
  back into the slot and keeps the record. Both overrides hand the recorded pointer to the
  caller.
\<close>

theorem registry_first_write_wins:
  assumes "table_located env st = Some (Inr (), stL)"
      and "syscall_table_ptr stL \<noteq> 0"
      and "n \<le> NR_syscall_max env"
      and "slot_addr (syscall_table_ptr stL) (ucast n) < 0xFFFFFFFFFFFFF000"
      and "overridden_syscall st (unat n) = 0"
      and "read64 (bytes st) (slot_addr (syscall_table_ptr stL) (ucast n)) \<noteq> 0"
  shows "override_override_restore env st n p1 p2 =
           Some (Inr (Some (read64 (bytes st) (slot_addr (syscall_table_ptr stL) (ucast n)))),
                 Inr (Some (read64 (bytes st) (slot_addr (syscall_table_ptr stL) (ucast n)))),
                 Inr (),
                 read64 (bytes st) (slot_addr (syscall_table_ptr stL) (ucast n)),
                 read64 (bytes st) (slot_addr (syscall_table_ptr stL) (ucast n)),
                 read64 (bytes st) (slot_addr (syscall_table_ptr stL) (ucast n)),
                 read64 (bytes st) (slot_addr (syscall_table_ptr stL) (ucast n)))"
proof -
  from table_located_frame[OF assms(1)] obtain t where t: "stL = st\<lparr>syscall_table_ptr := t\<rparr>" ..
  have b: "bytes stL = bytes st" and r: "overridden_syscall stL (unat n) = 0"
    using t assms(5) by simp_all
  have "override_override_restore env stL n p1 p2 =
           Some (Inr (Some (read64 (bytes st) (slot_addr (syscall_table_ptr stL) (ucast n)))),
                 Inr (Some (read64 (bytes st) (slot_addr (syscall_table_ptr stL) (ucast n)))),
                 Inr (),
                 read64 (bytes st) (slot_addr (syscall_table_ptr stL) (ucast n)),
                 read64 (bytes st) (slot_addr (syscall_table_ptr stL) (ucast n)),
                 read64 (bytes st) (slot_addr (syscall_table_ptr stL) (ucast n)),
                 read64 (bytes st) (slot_addr (syscall_table_ptr stL) (ucast n)))"
    using assms(6) b
    by (intro override_override_restore_result[OF assms(2,3,4) r]) simp_all
  then show ?thesis
    by (simp only: override_override_restore_after_locate[OF assms(1,2)])
qed

theorem registry_first_write_wins_witness:
  "table_located env_demo st_cold = Some (Inr (), st_sys) \<and>
   syscall_table_ptr st_sys \<noteq> 0 \<and> (0 :: 32 word) \<le> NR_syscall_max env_demo \<and>
   slot_addr (syscall_table_ptr st_sys) (ucast (0 :: 32 word)) < 0xFFFFFFFFFFFFF000 \<and>
   overridden_syscall st_cold (unat (0 :: 32 word)) = 0 \<and>
   read64 (bytes st_cold) (slot_addr (syscall_table_ptr st_sys) (ucast (0 :: 32 word))) \<noteq> 0 \<and>
   override_override_restore env_demo st_cold 0 0xffffffffa0000100 0xffffffffa0000200 =
     Some (Inr (Some 0xffffffff81200000), Inr (Some 0xffffffff81200000), Inr (),
           0xffffffff81200000, 0xffffffff81200000, 0xffffffff81200000, 0xffffffff81200000)"
proof -
  have h2: "syscall_table_ptr st_sys \<noteq> 0" by (simp add: st_sys_def)
  have h3: "(0 :: 32 word) \<le> NR_syscall_max env_demo" by simp
  have h4: "slot_addr (syscall_table_ptr st_sys) (ucast (0 :: 32 word)) < 0xFFFFFFFFFFFFF000"
    by (simp add: st_sys_def slot_addr_def)
  have h5: "overridden_syscall st_cold (unat (0 :: 32 word)) = 0"
    by (simp add: st_cold_def st_sys_def)
  have b: "bytes st_cold = bytes st_sys" by (simp add: st_cold_def)
  have h6: "read64 (bytes st_cold) (slot_addr (syscall_table_ptr st_sys) (ucast (0 :: 32 word))) \<noteq> 0"
    by (simp add: b st_sys_slot0)
  from registry_first_write_wins[OF table_located_demo h2 h3 h4 h5 h6,
      of "0xffffffffa0000100" "0xffffffffa0000200"]
    table_located_demo h2 h3 h4 h5 h6
  show ?thesis by (simp add: b st_sys_slot0)
qed

text \<open>
  C3 as stated, for every number, fails where the slot holds a null pointer (slot 1 here):
  a null record is the registry's mark for "never overridden", so the second override
  records \<open>p1\<close> and the restore writes \<open>p1\<close> back.
\<close>

theorem registry_null_ground_truth_overwritten:
  "override_override_restore env_demo st_sys 1 0xffffffffa0000100 0xffffffffa0000200 =
     Some (Inr (Some 0), Inr (Some 0xffffffffa0000100), Inr (),
           0, 0xffffffffa0000100, 0xffffffffa0000100, 0xffffffffa0000100)"
proof -
  have h1: "syscall_table_ptr st_sys \<noteq> 0" by (simp add: st_sys_def)
  have h2: "(1 :: 32 word) \<le> NR_syscall_max env_demo" by (simp add: env_demo_def)
  have h3: "slot_addr (syscall_table_ptr st_sys) (ucast (1 :: 32 word)) < 0xFFFFFFFFFFFFF000"
    by (simp add: st_sys_def slot_addr_def)
  have h4: "overridden_syscall st_sys (unat (1 :: 32 word)) = 0" by (simp add: st_sys_def)
  show ?thesis
    by (rule override_override_restore_result[OF h1 h2 h3 h4]) (simp_all add: st_sys_slot1)
qed

text \<open>
  C4. Round trip, for an instance in any state (its saved-code array has the twelve bytes
  of its type), at an address below the last page of the address space, where the
  unprotect loop exits. Enable returns with the instance installed. The saved original
  code is then what the instance already held, if it was installed or had its trampoline
  prepared; otherwise, as for an instance that creation has just returned, it is the
  twelve bytes that were at the symbol before the call. The disable that follows returns
  with the twelve bytes at the symbol's address equal, byte for byte, to the saved
  original code.
\<close>

theorem enable_disable_round_trip:
  assumes "length (org_sym_code ovs) = OVERRIDE_JUMP_SIZE"
      and "org_sym_ptr ovs < 0xFFFFFFFFFFFFF000"
  shows "\<exists>st1 ovs1 st2 ovs2.
           enable_symbol_override st ovs = Some (Inr (), st1, ovs1) \<and>
           installed ovs1 \<and>
           org_sym_code ovs1 =
             (if installed ovs \<or> has_trampoline ovs then org_sym_code ovs
              else read_bytes (bytes st) (org_sym_ptr ovs) OVERRIDE_JUMP_SIZE) \<and>
           disable_symbol_override st1 ovs1 = Some (Inr (), st2, ovs2) \<and>
           \<not> installed ovs2 \<and>
           org_sym_code ovs2 = org_sym_code ovs1 \<and>
           read_bytes (bytes st2) (org_sym_ptr ovs) OVERRIDE_JUMP_SIZE = org_sym_code ovs2"
proof -
  let ?p = "org_sym_ptr ovs"
  have rb: "read_bytes (bytes (store_bytes s ?p (take OVERRIDE_JUMP_SIZE cs))) ?p OVERRIDE_JUMP_SIZE
                = cs"
    if "length cs = OVERRIDE_JUMP_SIZE" for s cs
    using read_write_bytes[of cs "bytes s" ?p] that
    by (simp add: store_bytes_def OVERRIDE_JUMP_SIZE_def)
  show ?thesis
  proof (cases "installed ovs")
    case True
    have e: "enable_symbol_override st ovs = Some (Inr (), st, ovs)"
      by (rule enable_symbol_override_noop[OF True])
    from disable_symbol_override_removes[OF True assms(2), of st] obtain pt where
      d: "disable_symbol_override st ovs =
            Some (Inr (), store_bytes (st\<lparr>ptes := pt\<rparr>) ?p (take OVERRIDE_JUMP_SIZE (org_sym_code ovs)),
                  ovs\<lparr>mem_protected := False, installed := False\<rparr>)" by blast
    show ?thesis
      using True e d rb[OF assms(1)] by simp
  next
    case False
    let ?o1 = "if \<not> has_trampoline ovs then prepare_trampoline st ovs else ovs"
    let ?ovs1 = "?o1\<lparr>mem_protected := False, installed := True\<rparr>"
    from enable_symbol_override_installs[OF False assms(2), of st] obtain pt1 where
      e: "enable_symbol_override st ovs =
            Some (Inr (), store_bytes (st\<lparr>ptes := pt1\<rparr>) ?p (take OVERRIDE_JUMP_SIZE (trampoline ?o1)),
                  ?ovs1)" by blast
    let ?st1 = "store_bytes (st\<lparr>ptes := pt1\<rparr>) ?p (take OVERRIDE_JUMP_SIZE (trampoline ?o1))"
    have p1: "org_sym_ptr ?ovs1 = ?p" by (simp add: prepare_trampoline_def)
    have c1: "org_sym_code ?ovs1 =
                (if installed ovs \<or> has_trampoline ovs then org_sym_code ovs
                 else read_bytes (bytes st) ?p OVERRIDE_JUMP_SIZE)"
      using False by (simp add: prepare_trampoline_def)
    have l1: "length (org_sym_code ?ovs1) = OVERRIDE_JUMP_SIZE"
      unfolding c1 using assms(1) by (simp add: length_read_bytes)
    have "installed ?ovs1" and "org_sym_ptr ?ovs1 < 0xFFFFFFFFFFFFF000"
      using assms(2) p1 by simp_all
    from disable_symbol_override_removes[OF this, of ?st1] obtain pt2 where
      d: "disable_symbol_override ?st1 ?ovs1 =
            Some (Inr (), store_bytes (?st1\<lparr>ptes := pt2\<rparr>) (org_sym_ptr ?ovs1)
                            (take OVERRIDE_JUMP_SIZE (org_sym_code ?ovs1)),
                  ?ovs1\<lparr>mem_protected := False, installed := False\<rparr>)" by blast
    have r: "read_bytes (bytes (store_bytes (?st1\<lparr>ptes := pt2\<rparr>) ?p
                           (take OVERRIDE_JUMP_SIZE (org_sym_code ?ovs1)))) ?p OVERRIDE_JUMP_SIZE
               = org_sym_code ?ovs1"
      by (rule rb[OF l1])
    have i1: "installed ?ovs1" by simp
    have c2: "org_sym_code (?ovs1\<lparr>mem_protected := False, installed := False\<rparr>) = org_sym_code ?ovs1"
      by simp
    have i2: "\<not> installed (?ovs1\<lparr>mem_protected := False, installed := False\<rparr>)" by simp
    show ?thesis
      apply (rule exI[of _ ?st1], rule exI[of _ ?ovs1])
      apply (rule exI[of _ "store_bytes (?st1\<lparr>ptes := pt2\<rparr>) ?p
                           (take OVERRIDE_JUMP_SIZE (org_sym_code ?ovs1))"])
      apply (rule exI[of _ "?ovs1\<lparr>mem_protected := False, installed := False\<rparr>"])
      using e d[unfolded p1] r i1 c1 c2 i2 by (simp only: simp_thms)
  qed
qed

theorem enable_disable_round_trip_witness:
  "length (org_sym_code ovs_demo) = OVERRIDE_JUMP_SIZE \<and>
   org_sym_ptr ovs_demo < 0xFFFFFFFFFFFFF000 \<and>
   (\<exists>st1 ovs1 st2 ovs2.
      enable_symbol_override st_demo ovs_demo = Some (Inr (), st1, ovs1) \<and>
      installed ovs1 \<and>
      org_sym_code ovs1 = read_bytes (bytes st_demo) (org_sym_ptr ovs_demo) OVERRIDE_JUMP_SIZE \<and>
      disable_symbol_override st1 ovs1 = Some (Inr (), st2, ovs2) \<and>
      \<not> installed ovs2 \<and>
      org_sym_code ovs2 = org_sym_code ovs1 \<and>
      read_bytes (bytes st2) (org_sym_ptr ovs_demo) OVERRIDE_JUMP_SIZE = org_sym_code ovs2)"
proof -
  have h1: "length (org_sym_code ovs_demo) = OVERRIDE_JUMP_SIZE"
    by (simp add: ovs_demo_def OVERRIDE_JUMP_SIZE_def)
  have h2: "org_sym_ptr ovs_demo < 0xFFFFFFFFFFFFF000" by (simp add: ovs_demo_def)
  have f: "\<not> (installed ovs_demo \<or> has_trampoline ovs_demo)" by (simp add: ovs_demo_def)
  from enable_disable_round_trip[OF h1 h2, of st_demo] h1 h2 f
  show ?thesis by simp
qed

text \<open>
  C5, at a failing input: no \<^verbatim>\<open>sys_call_table\<close> symbol, the four handlers resolved at
  8-aligned addresses, and a memory that holds no matching table. The scan starts at the
  lowest handler, never meets \<^verbatim>\<open>ULONG_MAX\<close>, wraps past address 0 and goes on: the
  lookup does not return, so it does not fail with table-not-found either.
\<close>

theorem scan_never_fails_on_aligned_start:
  "find_sys_call_table env_scan st_demo = None"
proof -
  let ?m = "bytes st_demo"
  have nomatch: "\<not> table_matches ?m t 0xffffffff860c18b0 0xffffffff860c37a0 0xffffffff860c7a80 0xffffffff860c7ba0" for t
    by (simp add: table_matches_def st_demo_def read64_const)
  have "scan_sys_call_table ?m 0xffffffff860c18b0 0xffffffff860c37a0 0xffffffff860c7a80
          0xffffffff860c7ba0 0xffffffff860c18b0 = None"
  proof (rule ccontr)
    assume "scan_sys_call_table ?m 0xffffffff860c18b0 0xffffffff860c37a0 0xffffffff860c7a80
          0xffffffff860c7ba0 0xffffffff860c18b0 \<noteq> None"
    then obtain y where "scan_sys_call_table ?m 0xffffffff860c18b0 0xffffffff860c37a0 0xffffffff860c7a80
          0xffffffff860c7ba0 0xffffffff860c18b0 = Some y" by blast
    from scan_sys_call_table_result[OF this] nomatch show False
      by (cases y) simp_all
  qed
  then show ?thesis
    by (simp add: find_sys_call_table_def env_scan_def Let_def)
qed

text \<open>
  C6, as amended. With the table located, before the call or by it (\<open>stL\<close> is the state
  with the base found), for a number within bounds whose slot lies below the last page,
  \<^verbatim>\<open>override_syscall\<close> hands the caller the registry's record for the number: the
  pointer that was in the slot immediately before the call when there is no record yet,
  the recorded pointer otherwise. It records that pointer and puts the new one into the
  slot. A second override of the same number therefore returns the recorded original
  again, and the pointer \<open>p1\<close> of the first override only when that original was null.
\<close>

theorem override_syscall_returns_recorded_original:
  assumes "table_located env st = Some (Inr (), stL)"
      and "syscall_table_ptr stL \<noteq> 0"
      and "n \<le> NR_syscall_max env"
      and "slot_addr (syscall_table_ptr stL) (ucast n) < 0xFFFFFFFFFFFFF000"
      and "g = (if overridden_syscall st (unat n) \<noteq> 0 then overridden_syscall st (unat n)
                else read64 (bytes st) (slot_addr (syscall_table_ptr stL) (ucast n)))"
  shows "\<exists>st1 st2.
           override_syscall env st n p1 True = Some (Inr (Some g), st1) \<and>
           overridden_syscall st1 (unat n) = g \<and>
           read64 (bytes st1) (slot_addr (syscall_table_ptr stL) (ucast n)) = p1 \<and>
           override_syscall env st1 n p2 True = Some (Inr (Some (if g \<noteq> 0 then g else p1)), st2)"
proof -
  let ?slot = "slot_addr (syscall_table_ptr stL) (ucast n)"
  from table_located_frame[OF assms(1)] obtain t where t: "stL = st\<lparr>syscall_table_ptr := t\<rparr>" ..
  have g: "g = (if overridden_syscall stL (unat n) \<noteq> 0 then overridden_syscall stL (unat n)
                else read64 (bytes stL) ?slot)"
    using assms(5) t by simp
  from override_syscall_cached[OF assms(2,3,4), of p1 True] g obtain pt1 where
    o1: "override_syscall env stL n p1 True =
           Some (Inr (Some g),
                 stL\<lparr>bytes := write_bytes (bytes stL) ?slot (le_bytes p1), ptes := pt1,
                    wlog := wlog stL @ [(?slot, le_bytes p1)],
                    overridden_syscall := (overridden_syscall stL)(unat n := g)\<rparr>)"
    by auto
  let ?st1 = "stL\<lparr>bytes := write_bytes (bytes stL) ?slot (le_bytes p1), ptes := pt1,
                    wlog := wlog stL @ [(?slot, le_bytes p1)],
                    overridden_syscall := (overridden_syscall stL)(unat n := g)\<rparr>"
  have o1': "override_syscall env st n p1 True = Some (Inr (Some g), ?st1)"
    using o1 by (simp only: override_syscall_after_locate[OF assms(1,2)])
  have t1: "syscall_table_ptr ?st1 = syscall_table_ptr stL" by simp
  have a1: "syscall_table_ptr ?st1 \<noteq> 0" using assms(2) by simp
  have a3: "slot_addr (syscall_table_ptr ?st1) (ucast n) < 0xFFFFFFFFFFFFF000"
    using assms(4) by simp
  have rd1: "read64 (bytes ?st1) ?slot = p1" by (simp add: read64_write_bytes)
  have reg1: "overridden_syscall ?st1 (unat n) = g" by simp
  have g2: "(if overridden_syscall ?st1 (unat n) \<noteq> 0 then overridden_syscall ?st1 (unat n)
              else read64 (bytes ?st1) (slot_addr (syscall_table_ptr ?st1) (ucast n)))
            = (if g \<noteq> 0 then g else p1)"
    unfolding t1 rd1 reg1 by simp
  from override_syscall_cached[OF a1 assms(3) a3, of p2 True] obtain st2 where
    o2: "override_syscall env ?st1 n p2 True = Some (Inr (Some (if g \<noteq> 0 then g else p1)), st2)"
    unfolding g2 by auto
  show ?thesis
    using o1' o2 rd1 reg1 by blast
qed

theorem override_syscall_returns_recorded_original_witness:
  "table_located env_demo st_cold = Some (Inr (), st_sys) \<and>
   syscall_table_ptr st_sys \<noteq> 0 \<and> (0 :: 32 word) \<le> NR_syscall_max env_demo \<and>
   slot_addr (syscall_table_ptr st_sys) (ucast (0 :: 32 word)) < 0xFFFFFFFFFFFFF000 \<and>
   (\<exists>st1 st2.
      override_syscall env_demo st_cold 0 0xffffffffa0000300 True
        = Some (Inr (Some 0xffffffff81200000), st1) \<and>
      overridden_syscall st1 (unat (0 :: 32 word)) = 0xffffffff81200000 \<and>
      read64 (bytes st1) (slot_addr (syscall_table_ptr st_sys) (ucast (0 :: 32 word))) = 0xffffffffa0000300 \<and>
      override_syscall env_demo st1 0 0xffffffffa0000400 True
        = Some (Inr (Some 0xffffffff81200000), st2))"
proof -
  have h2: "syscall_table_ptr st_sys \<noteq> 0" by (simp add: st_sys_def)
  have h3: "(0 :: 32 word) \<le> NR_syscall_max env_demo" by simp
  have h4: "slot_addr (syscall_table_ptr st_sys) (ucast (0 :: 32 word)) < 0xFFFFFFFFFFFFF000"
    by (simp add: st_sys_def slot_addr_def)
  have b: "bytes st_cold = bytes st_sys" by (simp add: st_cold_def)
  have h5: "(0xffffffff81200000 :: addr) =
              (if overridden_syscall st_cold (unat (0 :: 32 word)) \<noteq> 0
               then overridden_syscall st_cold (unat (0 :: 32 word))
               else read64 (bytes st_cold) (slot_addr (syscall_table_ptr st_sys) (ucast (0 :: 32 word))))"
    using st_sys_slot0 by (simp add: b) (simp add: st_cold_def st_sys_def)
  from override_syscall_returns_recorded_original[OF table_located_demo h2 h3 h4 h5,
      of "0xffffffffa0000300" "0xffffffffa0000400"] table_located_demo h2 h3 h4
  show ?thesis by simp
qed

text \<open>
  C6 as stated fails on the second override: slot 0 held \<^verbatim>\<open>0xffffffff81200000\<close>,
  the first override put \<^verbatim>\<open>0xffffffffa0000300\<close> there, and the second override returns
  the former.
\<close>

theorem second_override_does_not_return_previous:
  "map_option (fst \<circ> snd)
     (override_override_restore env_demo st_sys 0 0xffffffffa0000300 0xffffffffa0000400)
     = Some (Inr (Some 0xffffffff81200000)) \<and>
   (0xffffffff81200000 :: addr) \<noteq> 0xffffffffa0000300"
proof -
  have h1: "syscall_table_ptr st_sys \<noteq> 0" by (simp add: st_sys_def)
  have h2: "(0 :: 32 word) \<le> NR_syscall_max env_demo" by simp
  have h3: "slot_addr (syscall_table_ptr st_sys) (ucast (0 :: 32 word)) < 0xFFFFFFFFFFFFF000"
    by (simp add: st_sys_def slot_addr_def)
  have h4: "overridden_syscall st_sys (unat (0 :: 32 word)) = 0" by (simp add: st_sys_def)
  have "override_override_restore env_demo st_sys 0 0xffffffffa0000300 0xffffffffa0000400 =
     Some (Inr (Some 0xffffffff81200000), Inr (Some 0xffffffff81200000), Inr (),
           0xffffffff81200000, 0xffffffff81200000, 0xffffffff81200000, 0xffffffff81200000)"
    by (rule override_override_restore_result[OF h1 h2 h3 h4]) (simp_all add: st_sys_slot0)
  then show ?thesis by simp
qed

text \<open>
  C7, as amended. A number greater than \<^verbatim>\<open>__NR_syscall_max\<close> is rejected, after the
  table base has been looked at: \<^verbatim>\<open>restore_syscall\<close> fails with \<^verbatim>\<open>EINVAL\<close> when the base is cached
  and with \<^verbatim>\<open>EFAULT\<close> when it is not, and leaves the state as it was;
  \<^verbatim>\<open>override_syscall\<close> fails with \<^verbatim>\<open>EINVAL\<close> when the base is cached or the lookup it
  starts succeeds, and with the lookup's error otherwise; the lookup leaves memory, page
  table and registry as they were.
\<close>

theorem syscall_number_bounds_check:
  assumes "NR_syscall_max env < n"
  shows "restore_syscall env st n
           = Some (Inl (if syscall_table_ptr st = 0 then EFAULT else EINVAL), st) \<and>
         override_syscall env st n p w
           = (if syscall_table_ptr st \<noteq> 0 then Some (Inl EINVAL, st)
              else (case find_sys_call_table env st of
                      None \<Rightarrow> None
                    | Some (Inl e, st1) \<Rightarrow> Some (Inl e, st1)
                    | Some (Inr u, st1) \<Rightarrow> Some (Inl EINVAL, st1))) \<and>
         (\<forall>r st1. find_sys_call_table env st = Some (r, st1) \<longrightarrow>
            bytes st1 = bytes st \<and> overridden_syscall st1 = overridden_syscall st \<and>
            ptes st1 = ptes st \<and> wlog st1 = wlog st)"
proof (intro conjI allI impI)
  show "restore_syscall env st n
           = Some (Inl (if syscall_table_ptr st = 0 then EFAULT else EINVAL), st)"
    using assms by (simp add: restore_syscall_def)
  show "override_syscall env st n p w
           = (if syscall_table_ptr st \<noteq> 0 then Some (Inl EINVAL, st)
              else (case find_sys_call_table env st of
                      None \<Rightarrow> None
                    | Some (Inl e, st1) \<Rightarrow> Some (Inl e, st1)
                    | Some (Inr u, st1) \<Rightarrow> Some (Inl EINVAL, st1)))"
    using assms
    by (simp add: override_syscall_def split: option.splits sum.splits prod.splits)
next
  fix r st1 assume "find_sys_call_table env st = Some (r, st1)"
  from find_sys_call_table_frame[OF this] obtain t where "st1 = st\<lparr>syscall_table_ptr := t\<rparr>" ..
  then show "bytes st1 = bytes st" "overridden_syscall st1 = overridden_syscall st"
    "ptes st1 = ptes st" "wlog st1 = wlog st" by simp_all
qed

theorem syscall_number_bounds_check_witness:
  "NR_syscall_max env_demo < 333 \<and>
   find_sys_call_table env_demo st_demo
     = Some (Inr (), st_demo\<lparr>syscall_table_ptr := 0xffffffff81800000\<rparr>) \<and>
   restore_syscall env_demo st_demo 333 = Some (Inl EFAULT, st_demo) \<and>
   restore_syscall env_demo st_sys 333 = Some (Inl EINVAL, st_sys) \<and>
   override_syscall env_demo st_sys 333 0xffffffffa0000300 True = Some (Inl EINVAL, st_sys) \<and>
   override_syscall env_demo st_demo 333 0xffffffffa0000300 True
     = Some (Inl EINVAL, st_demo\<lparr>syscall_table_ptr := 0xffffffff81800000\<rparr>) \<and>
   bytes (st_demo\<lparr>syscall_table_ptr := 0xffffffff81800000\<rparr>) = bytes st_demo \<and>
   overridden_syscall (st_demo\<lparr>syscall_table_ptr := 0xffffffff81800000\<rparr>)
     = overridden_syscall st_demo"
proof -
  have h: "NR_syscall_max env_demo < 333" by (simp add: env_demo_def)
  have f: "find_sys_call_table env_demo st_demo
     = Some (Inr (), st_demo\<lparr>syscall_table_ptr := 0xffffffff81800000\<rparr>)"
    by (simp add: find_sys_call_table_def env_demo_def Let_def)
  have t0: "syscall_table_ptr st_demo = 0" by (simp add: st_demo_def)
  have t1: "syscall_table_ptr st_sys \<noteq> 0" by (simp add: st_sys_def)
  from syscall_number_bounds_check[OF h, of st_demo "0xffffffffa0000300" True]
       syscall_number_bounds_check[OF h, of st_sys "0xffffffffa0000300" True]
  show ?thesis using h f t0 t1 by simp
qed

text \<open>
  C7 as stated fails before the table is located: number 333 is out of bounds, yet both
  operations fail with \<^verbatim>\<open>EFAULT\<close>, restore because no base is cached, override because
  the lookup it starts finds nothing. And the number \<^verbatim>\<open>__NR_syscall_max\<close> itself, 332
  here, is within bounds: its override succeeds.
\<close>

theorem bounds_check_after_table_lookup:
  "NR_syscall_max env_demo < 333 \<and> NR_syscall_max env_bare < 333 \<and>
   restore_syscall env_demo st_demo 333 = Some (Inl EFAULT, st_demo) \<and>
   override_syscall env_bare st_demo 333 0xffffffffa0000300 True = Some (Inl EFAULT, st_demo) \<and>
   NR_syscall_max env_demo = 332 \<and>
   map_option fst (override_syscall env_demo st_sys 332 0xffffffffa0000300 True)
     = Some (Inr (Some 0))"
proof -
  have a: "NR_syscall_max env_demo < 333 \<and> NR_syscall_max env_bare < 333 \<and>
   restore_syscall env_demo st_demo 333 = Some (Inl EFAULT, st_demo) \<and>
   override_syscall env_bare st_demo 333 0xffffffffa0000300 True = Some (Inl EFAULT, st_demo) \<and>
   NR_syscall_max env_demo = 332"
    by (simp add: restore_syscall_def override_syscall_def find_sys_call_table_def
      env_demo_def env_bare_def st_demo_def Let_def)
  have h1: "syscall_table_ptr st_sys \<noteq> 0" by (simp add: st_sys_def)
  have h2: "(332 :: 32 word) \<le> NR_syscall_max env_demo" by (simp add: env_demo_def)
  have h3: "slot_addr (syscall_table_ptr st_sys) (ucast (332 :: 32 word)) < 0xFFFFFFFFFFFFF000"
    by (simp add: st_sys_def slot_addr_def)
  have s: "slot_addr (syscall_table_ptr st_sys) (ucast (332 :: 32 word)) = 0xffffffff81800a60"
    by (simp add: st_sys_def slot_addr_def)
  have r: "overridden_syscall st_sys (unat (332 :: 32 word)) = 0" by (simp add: st_sys_def)
  from override_syscall_cached[OF h1 h2 h3, of "0xffffffffa0000300" True]
  have "map_option fst (override_syscall env_demo st_sys 332 0xffffffffa0000300 True)
     = Some (Inr (Some 0))"
    unfolding s r by (auto simp: st_sys_slot332)
  with a show ?thesis by simp
qed

text \<open>
  C8. The trampoline that \<^verbatim>\<open>prepare_trampoline\<close> builds depends on the target address
  alone: it is the template with the eight bytes of the address, least significant first,
  at offset 2, twelve bytes long for every target.
\<close>

theorem build_jump_fixed_width:
  "trampoline (prepare_trampoline st ovs) =
     [0x48, 0xb8,
      ucast (new_sym_ptr ovs), ucast (drop_bit 8 (new_sym_ptr ovs)),
      ucast (drop_bit 16 (new_sym_ptr ovs)), ucast (drop_bit 24 (new_sym_ptr ovs)),
      ucast (drop_bit 32 (new_sym_ptr ovs)), ucast (drop_bit 40 (new_sym_ptr ovs)),
      ucast (drop_bit 48 (new_sym_ptr ovs)), ucast (drop_bit 56 (new_sym_ptr ovs)),
      0xff, 0xe0] \<and>
   length (trampoline (prepare_trampoline st ovs)) = 12 \<and>
   take 2 (trampoline (prepare_trampoline st ovs)) = take 2 jump_tpl \<and>
   drop 10 (trampoline (prepare_trampoline st ovs)) = drop 10 jump_tpl \<and>
   of_le_bytes (take 8 (drop JUMP_ADDR_POS (trampoline (prepare_trampoline st ovs)))) = new_sym_ptr ovs"
  by (simp add: trampoline_prepared le_bytes_unfold jump_tpl_def JUMP_ADDR_POS_def
      of_le_bytes_le_bytes [unfolded le_bytes_unfold])

text \<open>
  C9. Idempotence, for instances below the last page of the address space. Two enables in
  a row of an instance that is not installed (as a created instance is) make exactly one
  store, at the symbol's address: the second call returns 0 and changes nothing. Two
  disables in a row of any instance make one store when it was installed and none
  otherwise: the second call returns 0 and changes nothing.
\<close>

theorem enable_disable_idempotent:
  assumes "\<not> installed ovs"
      and "org_sym_ptr ovs < 0xFFFFFFFFFFFFF000"
      and "org_sym_ptr ovs' < 0xFFFFFFFFFFFFF000"
  shows "(\<exists>st1 ovs1 bs.
            enable_symbol_override st ovs = Some (Inr (), st1, ovs1) \<and>
            installed ovs1 \<and>
            wlog st1 = wlog st @ [(org_sym_ptr ovs, bs)] \<and>
            enable_symbol_override st1 ovs1 = Some (Inr (), st1, ovs1)) \<and>
         (\<exists>st1 ovs1.
            disable_symbol_override st' ovs' = Some (Inr (), st1, ovs1) \<and>
            \<not> installed ovs1 \<and>
            wlog st1 = wlog st' @ (if installed ovs'
                                   then [(org_sym_ptr ovs', take OVERRIDE_JUMP_SIZE (org_sym_code ovs'))]
                                   else []) \<and>
            length (wlog st1) \<le> length (wlog st') + 1 \<and>
            disable_symbol_override st1 ovs1 = Some (Inr (), st1, ovs1))"
proof (rule conjI)
  from enable_symbol_override_installs[OF assms(1,2), of st] obtain pt where
    e: "enable_symbol_override st ovs =
           Some (Inr (),
                 store_bytes (st\<lparr>ptes := pt\<rparr>) (org_sym_ptr ovs)
                   (take OVERRIDE_JUMP_SIZE
                      (trampoline (if \<not> has_trampoline ovs then prepare_trampoline st ovs else ovs))),
                 (if \<not> has_trampoline ovs then prepare_trampoline st ovs else ovs)
                   \<lparr>mem_protected := False, installed := True\<rparr>)" by blast
  let ?bs = "take OVERRIDE_JUMP_SIZE
               (trampoline (if \<not> has_trampoline ovs then prepare_trampoline st ovs else ovs))"
  let ?st1 = "store_bytes (st\<lparr>ptes := pt\<rparr>) (org_sym_ptr ovs) ?bs"
  let ?ovs1 = "(if \<not> has_trampoline ovs then prepare_trampoline st ovs else ovs)
                   \<lparr>mem_protected := False, installed := True\<rparr>"
  have i: "installed ?ovs1" by simp
  have w: "wlog ?st1 = wlog st @ [(org_sym_ptr ovs, ?bs)]" by (simp add: store_bytes_def)
  have again: "enable_symbol_override ?st1 ?ovs1 = Some (Inr (), ?st1, ?ovs1)"
    by (rule enable_symbol_override_noop[OF i])
  show "\<exists>st1 ovs1 bs.
            enable_symbol_override st ovs = Some (Inr (), st1, ovs1) \<and>
            installed ovs1 \<and>
            wlog st1 = wlog st @ [(org_sym_ptr ovs, bs)] \<and>
            enable_symbol_override st1 ovs1 = Some (Inr (), st1, ovs1)"
    using e i w again by blast
next
  show "\<exists>st1 ovs1.
            disable_symbol_override st' ovs' = Some (Inr (), st1, ovs1) \<and>
            \<not> installed ovs1 \<and>
            wlog st1 = wlog st' @ (if installed ovs'
                                   then [(org_sym_ptr ovs', take OVERRIDE_JUMP_SIZE (org_sym_code ovs'))]
                                   else []) \<and>
            length (wlog st1) \<le> length (wlog st') + 1 \<and>
            disable_symbol_override st1 ovs1 = Some (Inr (), st1, ovs1)"
  proof (cases "installed ovs'")
    case False
    then have "disable_symbol_override st' ovs' = Some (Inr (), st', ovs')"
      by (rule disable_symbol_override_noop)
    then show ?thesis using False by simp
  next
    case True
    from disable_symbol_override_removes[OF True assms(3), of st'] obtain pt where
      d: "disable_symbol_override st' ovs' =
           Some (Inr (),
                 store_bytes (st'\<lparr>ptes := pt\<rparr>) (org_sym_ptr ovs')
                   (take OVERRIDE_JUMP_SIZE (org_sym_code ovs')),
                 ovs'\<lparr>mem_protected := False, installed := False\<rparr>)" by blast
    let ?st1 = "store_bytes (st'\<lparr>ptes := pt\<rparr>) (org_sym_ptr ovs')
                   (take OVERRIDE_JUMP_SIZE (org_sym_code ovs'))"
    let ?ovs1 = "ovs'\<lparr>mem_protected := False, installed := False\<rparr>"
    have i: "\<not> installed ?ovs1" by simp
    have w: "wlog ?st1 = wlog st' @ [(org_sym_ptr ovs', take OVERRIDE_JUMP_SIZE (org_sym_code ovs'))]"
      by (simp add: store_bytes_def)
    have again: "disable_symbol_override ?st1 ?ovs1 = Some (Inr (), ?st1, ?ovs1)"
      by (rule disable_symbol_override_noop[OF i])
    show ?thesis
      using d i w again True by simp
  qed
qed

theorem enable_disable_idempotent_witness:
  "\<not> installed ovs_demo \<and> org_sym_ptr ovs_demo < 0xFFFFFFFFFFFFF000 \<and>
   org_sym_ptr (ovs_demo\<lparr>installed := True\<rparr>) < 0xFFFFFFFFFFFFF000 \<and>
   (\<exists>st1 ovs1 bs.
      enable_symbol_override st_demo ovs_demo = Some (Inr (), st1, ovs1) \<and>
      installed ovs1 \<and>
      wlog st1 = wlog st_demo @ [(org_sym_ptr ovs_demo, bs)] \<and>
      enable_symbol_override st1 ovs1 = Some (Inr (), st1, ovs1)) \<and>
   (\<exists>st1 ovs1.
      disable_symbol_override st_demo (ovs_demo\<lparr>installed := True\<rparr>) = Some (Inr (), st1, ovs1) \<and>
      \<not> installed ovs1 \<and>
      wlog st1 = wlog st_demo @ [(org_sym_ptr ovs_demo, take OVERRIDE_JUMP_SIZE (org_sym_code ovs_demo))] \<and>
      length (wlog st1) \<le> length (wlog st_demo) + 1 \<and>
      disable_symbol_override st1 ovs1 = Some (Inr (), st1, ovs1))"
proof -
  have h1: "\<not> installed ovs_demo" by (simp add: ovs_demo_def)
  have h2: "org_sym_ptr ovs_demo < 0xFFFFFFFFFFFFF000" by (simp add: ovs_demo_def)
  have h3: "org_sym_ptr (ovs_demo\<lparr>installed := True\<rparr>) < 0xFFFFFFFFFFFFF000"
    by (simp add: ovs_demo_def)
  from enable_disable_idempotent[OF h1 h2 h3, of st_demo st_demo] h1 h2 h3
  show ?thesis by simp
qed

text \<open>
  C10. \<^verbatim>\<open>symbol_is_overridden\<close> answers false for a null handle and the installed flag of
  the instance otherwise.
\<close>

theorem symbol_is_overridden_total:
  "symbol_is_overridden None = False \<and> symbol_is_overridden (Some ovs) = installed ovs"
  by (simp add: symbol_is_overridden_def)

end
